theory Spec2Isabelle
  imports Complex_Main "HOL-Library.AList"
begin

section \<open>JavaScript values\<close>

text \<open>
  The values a handler hands to the invocation engine. Only two observations are made on
  them by the code: truthiness (\<open>if (error)\<close> in the completion callback) and strict
  equality with the string \<open>"lambda-helper-timeout"\<close>. Objects (including \<open>Error\<close>
  instances) are opaque and identified by a reference. What is given as the \<open>result\<close> of
  a handler may moreover be a promise; that is the type \<open>result\<close> below.
\<close>

datatype jsval =
    Undefined
  | Null
  | JBool bool
  | JNum int
  | JStr string
  | JObj nat

fun truthy :: "jsval \<Rightarrow> bool" where
  "truthy Undefined = False"
| "truthy Null = False"
| "truthy (JBool b) = b"
| "truthy (JNum n) = (n \<noteq> 0)"
| "truthy (JStr s) = (s \<noteq> [])"
| "truthy (JObj r) = True"

section \<open>Invocation engine: \<open>LambdaHelper.invokeLambda\<close>\<close>

text \<open>\<open>InvokeLambdaOutput\<close>: \<open>Success result\<close> is \<open>{ result, success: true }\<close> and
  \<open>Failure error timeout\<close> is \<open>{ error, success: false, timeout }\<close>.\<close>

datatype invoke_output =
    Success jsval
  | Failure jsval bool

text \<open>How a promise settles: fulfilled with a value, or rejected with a reason.\<close>

datatype settlement = Fulfilled jsval | Rejected jsval

text \<open>
  What the resolving function of a promise is called with: a value, or a \<open>Promise\<close> (or
  any other thenable). In the second case the promise follows the thenable: it settles
  as the thenable does (\<open>Thenable (Some s)\<close>) or, with it, never (\<open>Thenable None\<close>).
  \<open>resolution\<close> is the fate of a promise resolved with a result.
\<close>

datatype result = Value jsval | Thenable "settlement option"

fun resolution :: "result \<Rightarrow> settlement option" where
  "resolution (Value v) = Some (Fulfilled v)"
| "resolution (Thenable fate) = fate"

text \<open>
  State of the promise created inside \<open>invokeLambda\<close>: \<open>Pending\<close>, or resolved, its fate
  sealed: \<open>Resolved (Some s)\<close> settles as \<open>s\<close>, \<open>Resolved None\<close> follows a thenable
  that never settles.
\<close>

datatype promise_state = Pending | Resolved "settlement option"

text \<open>
  The local variables of one \<open>invokeLambda\<close> call that the closures \<open>resolve\<close>,
  \<open>reject\<close> and the timer callback share:
  \<^item> \<open>promiseSettled\<close> and \<open>timeoutId\<close> (\<open>True\<close> for a timer handle, \<open>False\<close> for
    \<open>null\<close>) are the two \<open>let\<close> variables;
  \<^item> \<open>promise\<close> is the state of the promise;
  \<^item> \<open>timerArmed\<close> is the runtime's side of \<open>setTimeout\<close>/\<open>clearTimeout\<close>: whether the
    timer callback is still scheduled;
  \<^item> \<open>thenPending\<close> tells that \<open>result.then(resolve, reject)\<close> was registered on the
    promise the handler returned and has not run yet.
\<close>

record engine =
  promiseSettled :: bool
  timeoutId :: bool
  promise :: promise_state
  timerArmed :: bool
  thenPending :: bool

text \<open>
  The resolving functions of a JavaScript promise act once only. \<open>innerResolve\<close> adopts
  a thenable result; \<open>innerReject\<close> takes any reason as it is.
\<close>

definition innerResolve :: "result \<Rightarrow> engine \<Rightarrow> engine" where
  "innerResolve r e =
     (case promise e of
        Pending \<Rightarrow> e\<lparr>promise := Resolved (resolution r)\<rparr>
      | Resolved _ \<Rightarrow> e)"

definition innerReject :: "jsval \<Rightarrow> engine \<Rightarrow> engine" where
  "innerReject err e =
     (case promise e of
        Pending \<Rightarrow> e\<lparr>promise := Resolved (Some (Rejected err))\<rparr>
      | Resolved _ \<Rightarrow> e)"

definition clearTimer :: "engine \<Rightarrow> engine" where
  "clearTimer e =
     (if timeoutId e then e\<lparr>timerArmed := False, timeoutId := False\<rparr> else e)"

definition resolve :: "result \<Rightarrow> engine \<Rightarrow> engine" where
  "resolve r e =
     (let e1 = clearTimer e
      in if \<not> promiseSettled e1 then (innerResolve r e1)\<lparr>promiseSettled := True\<rparr> else e1)"

definition reject :: "jsval \<Rightarrow> engine \<Rightarrow> engine" where
  "reject err e =
     (let e1 = clearTimer e
      in if \<not> promiseSettled e1 then (innerReject err e1)\<lparr>promiseSettled := True\<rparr> else e1)"

definition callback :: "jsval \<Rightarrow> result \<Rightarrow> engine \<Rightarrow> engine" where
  "callback err res e = (if truthy err then reject err e else resolve res e)"

text \<open>
  What a handler can call: the completion callback, and the methods \<open>succeed\<close>,
  \<open>fail\<close> and \<open>done\<close> of the context built by \<open>#createContext\<close>, each of which
  forwards to the callback.
\<close>

datatype call =
    Callback jsval result
  | Succeed result
  | Fail jsval
  | Done jsval result

fun perform :: "call \<Rightarrow> engine \<Rightarrow> engine" where
  "perform (Callback err res) e = callback err res e"
| "perform (Done err res) e = callback err res e"
| "perform (Fail err) e = callback err (Value Undefined) e"
| "perform (Succeed res) e = callback Null res e"

definition timeout_sentinel :: jsval where
  "timeout_sentinel = JStr ''lambda-helper-timeout''"

text \<open>The callback given to \<open>setTimeout\<close>; it runs only while the timer is scheduled.\<close>

definition timer_fires :: "engine \<Rightarrow> engine" where
  "timer_fires e =
     (if timerArmed e
      then reject timeout_sentinel (e\<lparr>timerArmed := False, timeoutId := False\<rparr>)
      else e)"

text \<open>
  Events the event loop delivers after the synchronous part of the handler: a call made
  from asynchronous handler code, or the settlement of the promise the handler returned
  (which runs the reaction registered by \<open>result.then(resolve, reject)\<close>, once, and only
  if it was registered; a promise is never fulfilled with a thenable).
\<close>

datatype ev = Call call | PromiseSettles settlement

fun deliver :: "ev \<Rightarrow> engine \<Rightarrow> engine" where
  "deliver (Call c) e = perform c e"
| "deliver (PromiseSettles s) e =
     (if thenPending e
      then (case s of
              Fulfilled v \<Rightarrow> resolve (Value v) (e\<lparr>thenPending := False\<rparr>)
            | Rejected err \<Rightarrow> reject err (e\<lparr>thenPending := False\<rparr>))
      else e)"

text \<open>
  The observable behaviour of one handler execution:
  \<^item> \<open>sync_calls\<close>: the calls it makes before it returns or throws;
  \<^item> \<open>finish\<close>: how the call \<open>handler(event, context, callback)\<close> ends, by returning a
    plain value, by returning a \<open>Promise\<close>, or by throwing;
  \<^item> \<open>before_timer\<close>: the events delivered before the \<open>timeout * 1000\<close> ms timer is due;
  \<^item> \<open>after_timer\<close>: the events delivered after that instant.
\<close>

datatype ret = Plain jsval | PromiseRet

datatype finish = Returns ret | Throws jsval

record handler_run =
  sync_calls :: "call list"
  finish :: finish
  before_timer :: "ev list"
  after_timer :: "ev list"

definition initial_engine :: engine where
  "initial_engine =
     \<lparr>promiseSettled = False, timeoutId = False, promise = Pending,
      timerArmed = False, thenPending = False\<rparr>"

definition setTimer :: "engine \<Rightarrow> engine" where
  "setTimer e = e\<lparr>timerArmed := True, timeoutId := True\<rparr>"

definition run_sync :: "handler_run \<Rightarrow> engine \<Rightarrow> engine" where
  "run_sync h e =
     (let e1 = fold perform (sync_calls h) e
      in case finish h of
           Throws err \<Rightarrow> reject err e1
         | Returns (Plain v) \<Rightarrow> e1
         | Returns PromiseRet \<Rightarrow> e1\<lparr>thenPending := True\<rparr>)"

definition run_engine :: "handler_run \<Rightarrow> engine" where
  "run_engine h =
     fold deliver (after_timer h)
       (timer_fires
          (fold deliver (before_timer h)
             (run_sync h (setTimer initial_engine))))"

text \<open>The \<open>try { await promise } catch\<close> at the end of \<open>invokeLambda\<close>.\<close>

definition output_of :: "settlement \<Rightarrow> invoke_output" where
  "output_of s =
     (case s of
        Fulfilled v \<Rightarrow> Success v
      | Rejected err \<Rightarrow>
          Failure (if err \<noteq> timeout_sentinel then err else Undefined)
                  (err = timeout_sentinel))"

text \<open>
  \<open>invokeLambda\<close> on an execution whose order against the timer callback is given.
  \<open>None\<close> stands for a promise that never settles: the call never returns.
\<close>

definition invokeLambda :: "handler_run \<Rightarrow> invoke_output option" where
  "invokeLambda h =
     (case promise (run_engine h) of
        Pending \<Rightarrow> None
      | Resolved fate \<Rightarrow> map_option output_of fate)"

subsection \<open>Completion signals, as the specification speaks of them\<close>

text \<open>
  A completion signal is a call of the callback or of a context method, a synchronous
  throw of the handler, the settlement of the promise it returned, or the expiry of the
  timer. \<open>outcome\<close> is what a signal asks for when it is taken alone: a settlement, or
  none when it hands over a thenable that never settles.
\<close>

datatype signal = SCall call | SThrow jsval | SSettled settlement | STimer

fun outcome :: "signal \<Rightarrow> settlement option" where
  "outcome (SCall (Callback err res)) =
     (if truthy err then Some (Rejected err) else resolution res)"
| "outcome (SCall (Done err res)) =
     (if truthy err then Some (Rejected err) else resolution res)"
| "outcome (SCall (Fail err)) =
     (if truthy err then Some (Rejected err) else Some (Fulfilled Undefined))"
| "outcome (SCall (Succeed res)) = resolution res"
| "outcome (SThrow err) = Some (Rejected err)"
| "outcome (SSettled s) = Some s"
| "outcome STimer = Some (Rejected timeout_sentinel)"

text \<open>
  The signals among the delivered events: every call, and the first settlement of the
  returned promise when the handler did return a promise (\<open>p\<close>).
\<close>

fun observed :: "bool \<Rightarrow> ev list \<Rightarrow> signal list" where
  "observed p [] = []"
| "observed p (Call c # evs) = SCall c # observed p evs"
| "observed p (PromiseSettles s # evs) =
     (if p then SSettled s # observed False evs else observed p evs)"

fun thrown :: "finish \<Rightarrow> signal list" where
  "thrown (Throws err) = [SThrow err]"
| "thrown (Returns r) = []"

fun returns_promise :: "finish \<Rightarrow> bool" where
  "returns_promise (Returns PromiseRet) = True"
| "returns_promise _ = False"

definition signals_before_timer :: "handler_run \<Rightarrow> signal list" where
  "signals_before_timer h =
     map SCall (sync_calls h) @ thrown (finish h)
       @ observed (returns_promise (finish h)) (before_timer h)"

definition first_signal :: "handler_run \<Rightarrow> signal" where
  "first_signal h = (case signals_before_timer h of [] \<Rightarrow> STimer | s # _ \<Rightarrow> s)"

text \<open>The two shapes of the engine state after the timer was set.\<close>

definition pending :: "engine \<Rightarrow> bool" where
  "pending e = (promise e = Pending \<and> \<not> promiseSettled e \<and> timerArmed e \<and> timeoutId e)"

definition settled_with :: "settlement option \<Rightarrow> engine \<Rightarrow> bool" where
  "settled_with fate e =
     (promise e = Resolved fate \<and> promiseSettled e \<and> \<not> timerArmed e \<and> \<not> timeoutId e)"

text \<open>The error value of a signal that reports a failure of the handler.\<close>

definition failure_value :: "signal \<Rightarrow> jsval option" where
  "failure_value s =
     (case s of
        SCall (Callback err res) \<Rightarrow> if truthy err then Some err else None
      | SCall (Done err res) \<Rightarrow> if truthy err then Some err else None
      | SCall (Fail err) \<Rightarrow> if truthy err then Some err else None
      | SCall (Succeed res) \<Rightarrow> None
      | SThrow err \<Rightarrow> Some err
      | SSettled (Rejected err) \<Rightarrow> Some err
      | SSettled (Fulfilled v) \<Rightarrow> None
      | STimer \<Rightarrow> None)"

text \<open>A handler that does nothing at all: its invocation ends by the expiry of the timer.\<close>

definition idle_run :: handler_run where
  "idle_run = \<lparr>sync_calls = [], finish = Returns (Plain Undefined), before_timer = [], after_timer = []\<rparr>"

subsection \<open>The timer and the clock\<close>









section \<open>Errors\<close>

text \<open>
  What the code can throw or see thrown. The two SDK exception classes that
  \<open>upsertQueue\<close> tests with \<open>instanceof\<close> have a constructor each; \<open>ErrorObj name message\<close>
  is any other instance of \<open>Error\<close>; \<open>Thrown v\<close> is a thrown value that is no \<open>Error\<close>.
\<close>

datatype error =
    QueueDoesNotExist
  | QueueNameExists
  | ErrorObj string string
  | Thrown jsval

text \<open>\<open>error instanceof Error && error.name === "AbortError"\<close>\<close>

fun isAbortError :: "error \<Rightarrow> bool" where
  "isAbortError (ErrorObj name msg) = (name = ''AbortError'')"
| "isAbortError QueueDoesNotExist = False"
| "isAbortError QueueNameExists = False"
| "isAbortError (Thrown v) = False"

text \<open>
  How a call that may loop ends within a bound on its iterations: it returned, it threw,
  or it is still in its loop (with the loop's state) when the bound is reached.
\<close>

datatype ('a, 'p) run = Returned 'a | Raised error | Running 'p

section \<open>The queue service as the client sees it\<close>

text \<open>An SQS message; every field may be absent.\<close>

record message =
  MessageId :: "string option"
  ReceiptHandle :: "string option"
  Body :: "string option"
  MD5OfBody :: "string option"

text \<open>An object with string values, such as the attributes of a queue: its own
  properties in insertion order.\<close>

type_synonym jsobj = "(string \<times> string) list"

text \<open>
  The commands the helpers send:
  \<^item> \<open>GetQueueUrlCommand QueueName\<close>
  \<^item> \<open>GetQueueAttributesCommand AttributeNames QueueUrl\<close>
  \<^item> \<open>CreateQueueCommand QueueName Attributes\<close>
  \<^item> \<open>DeleteQueueCommand QueueUrl\<close>
  \<^item> \<open>ReceiveMessageCommand MaxNumberOfMessages QueueUrl VisibilityTimeout WaitTimeSeconds\<close>
  \<^item> \<open>DeleteMessageBatchCommand QueueUrl Entries\<close>, an entry being \<open>(Id, ReceiptHandle)\<close>
  \<^item> \<open>PurgeQueueCommand QueueUrl\<close>

  A queue URL is \<open>None\<close> where the code holds \<open>undefined\<close> for it.
\<close>

datatype command =
    GetQueueUrlCommand string
  | GetQueueAttributesCommand "string list" "string option"
  | CreateQueueCommand string "jsobj option"
  | DeleteQueueCommand "string option"
  | ReceiveMessageCommand int "string option" "int option" int
  | DeleteMessageBatchCommand "string option" "(string option \<times> string option) list"
  | PurgeQueueCommand "string option"

datatype response =
    GetQueueUrlResult "string option"
  | GetQueueAttributesResult "jsobj option"
  | ReceiveMessageResult "message list option"
  | EmptyResult

text \<open>Reading a property of a response; a property it does not have is \<open>undefined\<close>.\<close>

fun QueueUrl_of :: "response \<Rightarrow> string option" where
  "QueueUrl_of (GetQueueUrlResult u) = u"
| "QueueUrl_of _ = None"

fun Attributes_of :: "response \<Rightarrow> jsobj option" where
  "Attributes_of (GetQueueAttributesResult a) = a"
| "Attributes_of _ = None"

fun Messages_of :: "response \<Rightarrow> message list option" where
  "Messages_of (ReceiveMessageResult ms) = ms"
| "Messages_of _ = None"

text \<open>
  The service is outside the repository. It is a parameter: given the endpoint, the
  command, the abort signal passed along (if any) and its own state \<open>'s\<close>, it answers or
  throws, and moves to a new state. An abort signal is a reading of the \<open>aborted\<close> flag.
\<close>

type_synonym 's abort_signal = "('s \<Rightarrow> bool) option"

type_synonym 's service =
  "string \<Rightarrow> command \<Rightarrow> 's abort_signal \<Rightarrow> 's \<Rightarrow> (error + response) \<times> 's"

text \<open>The world: the state of the environment and the commands sent so far, each with
  the endpoint of the client it was sent through.\<close>

record 's world =
  env :: 's
  sent :: "(string \<times> command) list"

text \<open>\<open>client.send(command, { abortSignal })\<close> on the client of \<open>endpoint\<close>. A client
  is identified with its endpoint; the cache that \<open>#getClient\<close> keeps is not modelled.\<close>

definition send ::
  "'s service \<Rightarrow> string \<Rightarrow> command \<Rightarrow> 's abort_signal \<Rightarrow> 's world \<Rightarrow> (error + response) \<times> 's world" where
  "send svc endpoint cmd sig w =
     (case svc endpoint cmd sig (env w) of
        (r, s') \<Rightarrow> (r, \<lparr>env = s', sent = sent w @ [(endpoint, cmd)]\<rparr>))"

section \<open>Queue client: \<open>SqsHelper\<close>\<close>

subsection \<open>\<open>getMessages\<close> and \<open>getJsonMessages\<close>\<close>

text \<open>\<open>batchSize === undefined ? 10 : Math.min(10, batchSize - messages.length)\<close>\<close>

definition maxNumberOfMessages :: "int option \<Rightarrow> message list \<Rightarrow> int" where
  "maxNumberOfMessages batchSize messages =
     (case batchSize of None \<Rightarrow> 10 | Some b \<Rightarrow> min 10 (b - int (length messages)))"

text \<open>\<open>batchSize ? 20 : 0\<close>\<close>

definition waitTimeSeconds :: "int option \<Rightarrow> int" where
  "waitTimeSeconds batchSize =
     (case batchSize of None \<Rightarrow> 0 | Some b \<Rightarrow> if b \<noteq> 0 then 20 else 0)"

definition delete_entries :: "message list \<Rightarrow> (string option \<times> string option) list" where
  "delete_entries ms = map (\<lambda>msg. (MessageId msg, ReceiptHandle msg)) ms"

text \<open>The closure \<open>receiveMessages\<close> of \<open>getMessages\<close>, at the accumulated \<open>messages\<close>.\<close>

definition receiveMessages ::
  "'s service \<Rightarrow> 's abort_signal \<Rightarrow> int option \<Rightarrow> string \<Rightarrow> bool \<Rightarrow> string option \<Rightarrow>
     message list \<Rightarrow> 's world \<Rightarrow> (error + message list) \<times> 's world" where
  "receiveMessages svc abortSignal batchSize endpoint keep queueUrl messages w =
     (case send svc endpoint
             (ReceiveMessageCommand (maxNumberOfMessages batchSize messages) queueUrl (Some 0)
                (waitTimeSeconds batchSize))
             abortSignal w of
        (Inl e, w1) \<Rightarrow> (Inl e, w1)
      | (Inr res, w1) \<Rightarrow>
          (case Messages_of res of
             None \<Rightarrow> (Inr [], w1)
           | Some ms \<Rightarrow>
               if ms \<noteq> [] \<and> \<not> keep
               then (case send svc endpoint
                            (DeleteMessageBatchCommand queueUrl (delete_entries ms))
                            abortSignal w1 of
                       (Inl e, w2) \<Rightarrow> (Inl e, w2)
                     | (Inr _, w2) \<Rightarrow> (Inr ms, w2))
               else (Inr ms, w1)))"

text \<open>
  The \<open>do ... while\<close> loop of \<open>getMessages\<close>, run for at most \<open>n\<close> iterations from the
  accumulated \<open>messages\<close>.
\<close>

fun getMessages_loop ::
  "nat \<Rightarrow> 's service \<Rightarrow> 's abort_signal \<Rightarrow> int option \<Rightarrow> string \<Rightarrow> bool \<Rightarrow> string option \<Rightarrow>
     message list \<Rightarrow> 's world \<Rightarrow> (message list, message list) run \<times> 's world" where
  "getMessages_loop 0 svc abortSignal batchSize endpoint keep queueUrl messages w =
     (Running messages, w)"
| "getMessages_loop (Suc n) svc abortSignal batchSize endpoint keep queueUrl messages w =
     (case receiveMessages svc abortSignal batchSize endpoint keep queueUrl messages w of
        (Inl e, w1) \<Rightarrow> (Raised e, w1)
      | (Inr new, w1) \<Rightarrow>
          (case batchSize of
             None \<Rightarrow> (Returned (messages @ new), w1)
           | Some b \<Rightarrow>
               if int (length (messages @ new)) < b
               then getMessages_loop n svc abortSignal batchSize endpoint keep queueUrl
                      (messages @ new) w1
               else (Returned (messages @ new), w1)))"

definition batch_size_error :: error where
  "batch_size_error = ErrorObj ''Error'' ''Batch size must be equal or greater than 1.''"

definition invalid_batch_size :: "int option \<Rightarrow> bool" where
  "invalid_batch_size batchSize = (case batchSize of None \<Rightarrow> False | Some b \<Rightarrow> b < 1)"

definition getMessages ::
  "nat \<Rightarrow> 's service \<Rightarrow> 's abort_signal \<Rightarrow> int option \<Rightarrow> string \<Rightarrow> bool \<Rightarrow> string option \<Rightarrow>
     's world \<Rightarrow> (message list, message list) run \<times> 's world" where
  "getMessages n svc abortSignal batchSize endpoint keep queueUrl w =
     (if invalid_batch_size batchSize then (Raised batch_size_error, w)
      else getMessages_loop n svc abortSignal batchSize endpoint keep queueUrl [] w)"

text \<open>
  \<open>JSON.parse\<close> is a parameter: \<open>Inl\<close> the message of the \<open>SyntaxError\<close> it throws,
  \<open>Inr\<close> the parsed value. An absent body reaches it as \<open>undefined\<close>, which it reads as
  the string \<open>undefined\<close>.
\<close>

definition body_text :: "message \<Rightarrow> string" where
  "body_text msg = (case Body msg of None \<Rightarrow> ''undefined'' | Some b \<Rightarrow> b)"

text \<open>\<open>res.messages.map((msg) => ({ ...msg, Object: JSON.parse(msg.Body!) }))\<close>: the
  first body that does not parse ends the whole \<open>map\<close>.\<close>

fun parse_messages ::
  "(string \<Rightarrow> string + 'j) \<Rightarrow> message list \<Rightarrow> error + (message \<times> 'j) list" where
  "parse_messages parse [] = Inr []"
| "parse_messages parse (msg # msgs) =
     (case parse (body_text msg) of
        Inl t \<Rightarrow> Inl (ErrorObj ''SyntaxError'' t)
      | Inr obj \<Rightarrow>
          (case parse_messages parse msgs of
             Inl e \<Rightarrow> Inl e
           | Inr rest \<Rightarrow> Inr ((msg, obj) # rest)))"

definition getJsonMessages ::
  "nat \<Rightarrow> (string \<Rightarrow> string + 'j) \<Rightarrow> 's service \<Rightarrow> 's abort_signal \<Rightarrow> int option \<Rightarrow> string \<Rightarrow>
     bool \<Rightarrow> string option \<Rightarrow> 's world \<Rightarrow> ((message \<times> 'j) list, message list) run \<times> 's world" where
  "getJsonMessages n parse svc abortSignal batchSize endpoint keep queueUrl w =
     (case getMessages n svc abortSignal batchSize endpoint keep queueUrl w of
        (Raised e, w1) \<Rightarrow> (Raised e, w1)
      | (Running ms, w1) \<Rightarrow> (Running ms, w1)
      | (Returned ms, w1) \<Rightarrow>
          (case parse_messages parse ms of
             Inl e \<Rightarrow> (Raised e, w1)
           | Inr parsed \<Rightarrow> (Returned parsed, w1)))"

subsection \<open>\<open>upsertQueue\<close>\<close>

definition DEFAULT_ATTRIBUTES :: jsobj where
  "DEFAULT_ATTRIBUTES =
     [(''DelaySeconds'', ''0''),
      (''MaximumMessageSize'', ''262144''),
      (''MessageRetentionPeriod'', ''345600''),
      (''ReceiveMessageWaitTimeSeconds'', ''0''),
      (''VisibilityTimeout'', ''30'')]"

text \<open>The \<open>AttributeNames\<close> that \<open>upsertQueue\<close> asks the service for.\<close>

definition recognized_names :: "string list" where
  "recognized_names =
     [''DelaySeconds'', ''MaximumMessageSize'', ''MessageRetentionPeriod'', ''Policy'',
      ''ReceiveMessageWaitTimeSeconds'', ''VisibilityTimeout'']"

text \<open>\<open>Object.assign(target, source)\<close>; an \<open>undefined\<close> source is skipped.\<close>

definition assign :: "jsobj \<Rightarrow> jsobj option \<Rightarrow> jsobj" where
  "assign target source =
     (case source of
        None \<Rightarrow> target
      | Some src \<Rightarrow> fold (\<lambda>(k, v) obj. AList.update k v obj) src target)"

text \<open>
  \<open>shallowEqual\<close> of the library fast-equals, on a possibly \<open>undefined\<close> first argument and
  an object: two objects are equal when they have as many own keys and every key of the
  first is a key of the second with the identical value; \<open>undefined\<close> equals no object.
\<close>

definition shallowEqual :: "jsobj option \<Rightarrow> jsobj \<Rightarrow> bool" where
  "shallowEqual a b =
     (case a of
        None \<Rightarrow> False
      | Some obj \<Rightarrow>
          length obj = length b \<and> list_all (\<lambda>(k, v). map_of b k = Some v) obj)"

definition expected_attributes :: "jsobj option \<Rightarrow> jsobj" where
  "expected_attributes requested =
     assign (assign (assign [] (Some DEFAULT_ATTRIBUTES)) requested) requested"

text \<open>The local function \<open>getQueueUrl\<close> of \<open>upsertQueue\<close>.\<close>

definition getQueueUrl ::
  "'s service \<Rightarrow> string \<Rightarrow> string \<Rightarrow> 's world \<Rightarrow> (error + string option) \<times> 's world" where
  "getQueueUrl svc endpoint queueName w =
     (case send svc endpoint (GetQueueUrlCommand queueName) None w of
        (Inl e, w1) \<Rightarrow> (Inl e, w1)
      | (Inr res, w1) \<Rightarrow> (Inr (QueueUrl_of res), w1))"

text \<open>
  The \<open>try\<close> block: its result is the error caught (if any) together with the value of
  the variable \<open>queueUrl\<close> at that point.
\<close>

definition upsert_try ::
  "'s service \<Rightarrow> string \<Rightarrow> jsobj option \<Rightarrow> string \<Rightarrow> 's world \<Rightarrow>
     (error option \<times> string option) \<times> 's world" where
  "upsert_try svc queueName attributes endpoint w =
     (case getQueueUrl svc endpoint queueName w of
        (Inl e, w1) \<Rightarrow> ((Some e, None), w1)
      | (Inr queueUrl, w1) \<Rightarrow>
          (case send svc endpoint (GetQueueAttributesCommand recognized_names queueUrl) None w1 of
             (Inl e, w2) \<Rightarrow> ((Some e, queueUrl), w2)
           | (Inr res, w2) \<Rightarrow>
               if \<not> shallowEqual (Attributes_of res) (expected_attributes attributes)
               then ((Some QueueNameExists, queueUrl), w2)
               else ((None, queueUrl), w2)))"

definition create_and_resolve ::
  "'s service \<Rightarrow> string \<Rightarrow> jsobj option \<Rightarrow> string \<Rightarrow> 's world \<Rightarrow>
     (error + string option) \<times> 's world" where
  "create_and_resolve svc queueName attributes endpoint w =
     (case send svc endpoint (CreateQueueCommand queueName attributes) None w of
        (Inl e, w1) \<Rightarrow> (Inl e, w1)
      | (Inr _, w1) \<Rightarrow> getQueueUrl svc endpoint queueName w1)"

text \<open>\<open>upsertQueue\<close> of the command \<open>CreateQueueCommand queueName attributes\<close>.\<close>

definition upsertQueue ::
  "'s service \<Rightarrow> string \<Rightarrow> jsobj option \<Rightarrow> string \<Rightarrow> bool \<Rightarrow> 's world \<Rightarrow>
     (error + string option) \<times> 's world" where
  "upsertQueue svc queueName attributes endpoint force w =
     (case upsert_try svc queueName attributes endpoint w of
        ((None, queueUrl), w1) \<Rightarrow> (Inr queueUrl, w1)
      | ((Some e, queueUrl), w1) \<Rightarrow>
          if e = QueueDoesNotExist
          then create_and_resolve svc queueName attributes endpoint w1
          else if e = QueueNameExists \<and> force
          then (case send svc endpoint (DeleteQueueCommand queueUrl) None w1 of
                  (Inl e', w2) \<Rightarrow> (Inl e', w2)
                | (Inr _, w2) \<Rightarrow> create_and_resolve svc queueName attributes endpoint w2)
          else (Inl e, w1))"


subsection \<open>Observations on the service and on the commands sent\<close>

text \<open>The service keeps to the protocol's cap when no answer to a receive request carries
  more messages than the request's \<open>MaxNumberOfMessages\<close>.\<close>

definition respects_cap :: "'s service \<Rightarrow> bool" where
  "respects_cap svc =
     (\<forall>ep mx url vis wt sig s res s' ms.
        svc ep (ReceiveMessageCommand mx url vis wt) sig s = (Inr res, s') \<longrightarrow>
        Messages_of res = Some ms \<longrightarrow> int (length ms) \<le> mx)"

text \<open>Readings of a list of sent commands: the \<open>MaxNumberOfMessages\<close> of its receive
  requests, the entries of its batch deletions, and whether a command changes a queue.\<close>

fun receive_sizes :: "(string \<times> command) list \<Rightarrow> int list" where
  "receive_sizes [] = []"
| "receive_sizes ((ep, ReceiveMessageCommand mx url vis wt) # cs) = mx # receive_sizes cs"
| "receive_sizes (c # cs) = receive_sizes cs"

fun deleted_entries :: "(string \<times> command) list \<Rightarrow> (string option \<times> string option) list" where
  "deleted_entries [] = []"
| "deleted_entries ((ep, DeleteMessageBatchCommand url entries) # cs) =
     entries @ deleted_entries cs"
| "deleted_entries (c # cs) = deleted_entries cs"

fun is_mutation :: "command \<Rightarrow> bool" where
  "is_mutation (GetQueueUrlCommand n) = False"
| "is_mutation (GetQueueAttributesCommand names url) = False"
| "is_mutation (ReceiveMessageCommand mx url vis wt) = False"
| "is_mutation (CreateQueueCommand n attrs) = True"
| "is_mutation (DeleteQueueCommand url) = True"
| "is_mutation (DeleteMessageBatchCommand url entries) = True"
| "is_mutation (PurgeQueueCommand url) = True"

text \<open>The commands sent since the world \<open>w\<close>, in a later world \<open>w'\<close>.\<close>

definition sent_since :: "'s world \<Rightarrow> 's world \<Rightarrow> (string \<times> command) list" where
  "sent_since w w' = drop (length (sent w)) (sent w')"

section \<open>Poll orchestrator: \<open>SqsLambdaHelper\<close>\<close>

text \<open>A record of the \<open>SQSEvent\<close>. The system attributes and the message attributes of a
  message are left out here.\<close>

record sqs_record =
  awsRegion :: string
  eventSource :: string
  eventSourceARN :: string
  body :: "string option"
  md5OfBody :: "string option"
  messageId :: "string option"
  receiptHandle :: "string option"

text \<open>\<open>toSqsEvent\<close>; \<open>env_region\<close> is \<open>process.env.AWS_REGION\<close>.\<close>

definition toSqsEvent ::
  "string option \<Rightarrow> string option \<Rightarrow> message list \<Rightarrow> string option \<Rightarrow> string option \<Rightarrow>
     sqs_record list" where
  "toSqsEvent env_region account messages queueName region =
     (let account' = (case account of None \<Rightarrow> ''123456789012'' | Some a \<Rightarrow> a);
          queueName' = (case queueName of None \<Rightarrow> ''queue'' | Some q \<Rightarrow> q);
          region' = (case region of
                       None \<Rightarrow> (case env_region of None \<Rightarrow> ''us-east-1'' | Some r \<Rightarrow> r)
                     | Some r \<Rightarrow> r)
      in map (\<lambda>m.
           \<lparr>awsRegion = region',
            eventSource = ''aws:sqs'',
            eventSourceARN = ''arn:aws:sqs:'' @ region' @ '':'' @ account' @ '':'' @ queueName',
            body = Body m,
            md5OfBody = MD5OfBody m,
            messageId = MessageId m,
            receiptHandle = ReceiptHandle m\<rparr>) messages)"

text \<open>
  The logging collaborator. \<open>runSqsLambda\<close> calls its methods \<open>info\<close> and \<open>error\<close>, with
  a message and at most one object. Like any call of foreign code, a call of the logger
  may throw (\<open>Some\<close> the error thrown) and may act on the environment.
\<close>

datatype level = LInfo | LError

datatype payload = NoPayload | ResultPayload jsval | FailurePayload jsval bool

type_synonym 's logger = "level \<Rightarrow> string \<Rightarrow> payload \<Rightarrow> 's \<Rightarrow> error option \<times> 's"

definition NoLogger :: "'s logger" where
  "NoLogger lvl msg p s = (None, s)"

definition call_logger ::
  "'s logger \<Rightarrow> level \<Rightarrow> string \<Rightarrow> payload \<Rightarrow> 's world \<Rightarrow> error option \<times> 's world" where
  "call_logger logger lvl msg p w =
     (case logger lvl msg p (env w) of (r, s') \<Rightarrow> (r, w\<lparr>env := s'\<rparr>))"

text \<open>The handler, as the orchestrator meets it: given the event and the environment, one
  execution (see \<open>handler_run\<close>) and its effect on the environment.\<close>

type_synonym 's handler = "sqs_record list \<Rightarrow> 's \<Rightarrow> handler_run \<times> 's"

text \<open>The decimal digits of \<open>messages.length\<close> in the template literal, most significant
  first; \<open>acc\<close> holds the digits produced so far.\<close>

function decimal_digits :: "nat \<Rightarrow> string \<Rightarrow> string" where
  "decimal_digits n acc =
     (let acc' = char_of (n mod 10 + 48) # acc
      in if n div 10 = 0 then acc' else decimal_digits (n div 10) acc')"
  by pat_completeness auto
termination
  by (relation "measure fst") (auto simp: Let_def)

definition string_of_nat :: "nat \<Rightarrow> string" where
  "string_of_nat n = decimal_digits n []"

declare decimal_digits.simps [simp del]

text \<open>The report of the outcome of an invocation.\<close>

definition report :: "'s logger \<Rightarrow> invoke_output \<Rightarrow> 's world \<Rightarrow> error option \<times> 's world" where
  "report logger output w =
     (case output of
        Success r \<Rightarrow>
          call_logger logger LInfo ''Successfully invoked lambda handler.'' (ResultPayload r) w
      | Failure e t \<Rightarrow>
          call_logger logger LError ''Failed to invoke lambda handler.'' (FailurePayload e t) w)"

text \<open>The loop condition \<open>abortSignal === undefined || !abortSignal.aborted\<close>.\<close>

definition keeps_polling :: "'s abort_signal \<Rightarrow> 's world \<Rightarrow> bool" where
  "keeps_polling abortSignal w =
     (case abortSignal of None \<Rightarrow> True | Some aborted \<Rightarrow> \<not> aborted (env w))"

text \<open>
  The poll/invoke loop, run for at most \<open>n\<close> iterations; \<open>k\<close> bounds the iterations of
  each \<open>getMessages\<close> call. \<open>break\<close> makes the call return; an error that is thrown makes
  it reject. The \<open>timeout\<close> of the input is what separates \<open>before_timer\<close> from
  \<open>after_timer\<close> in the executions of the handler.
\<close>

fun poll_loop ::
  "nat \<Rightarrow> nat \<Rightarrow> 's service \<Rightarrow> 's abort_signal \<Rightarrow> int \<Rightarrow> string \<Rightarrow> 's handler \<Rightarrow> 's logger \<Rightarrow>
     string option \<Rightarrow> string option \<Rightarrow> 's world \<Rightarrow> (unit, unit) run \<times> 's world" where
  "poll_loop 0 k svc abortSignal batchSize endpoint handler logger env_region queueUrl w =
     (Running (), w)"
| "poll_loop (Suc n) k svc abortSignal batchSize endpoint handler logger env_region queueUrl w =
     (if keeps_polling abortSignal w
      then (case call_logger logger LInfo ''Polling for SQS messages...'' NoPayload w of
              (Some e, w1) \<Rightarrow> (Raised e, w1)
            | (None, w1) \<Rightarrow>
                (case getMessages k svc abortSignal (Some batchSize) endpoint False queueUrl w1 of
                   (Raised e, w2) \<Rightarrow>
                     if isAbortError e then (Returned (), w2) else (Raised e, w2)
                 | (Running ms, w2) \<Rightarrow> (Running (), w2)
                 | (Returned messages, w2) \<Rightarrow>
                     (case call_logger logger LInfo
                             (''Invoking lambda handler with ''
                                @ string_of_nat (length messages) @ '' messages.'')
                             NoPayload w2 of
                        (Some e, w3) \<Rightarrow> (Raised e, w3)
                      | (None, w3) \<Rightarrow>
                          (case handler (toSqsEvent env_region None messages None None) (env w3) of
                             (h, s4) \<Rightarrow>
                               (case invokeLambda h of
                                  None \<Rightarrow> (Running (), w3\<lparr>env := s4\<rparr>)
                                | Some output \<Rightarrow>
                                    (case report logger output (w3\<lparr>env := s4\<rparr>) of
                                       (Some e, w5) \<Rightarrow> (Raised e, w5)
                                     | (None, w5) \<Rightarrow>
                                         poll_loop n k svc abortSignal batchSize endpoint handler
                                           logger env_region queueUrl w5))))))
      else (Returned (), w))"

datatype queue_ref = QueueName string | QueueUrl string

definition runSqsLambda ::
  "nat \<Rightarrow> nat \<Rightarrow> 's service \<Rightarrow> 's abort_signal \<Rightarrow> int \<Rightarrow> string \<Rightarrow> 's handler \<Rightarrow>
     's logger option \<Rightarrow> queue_ref \<Rightarrow> string option \<Rightarrow> 's world \<Rightarrow> (unit, unit) run \<times> 's world" where
  "runSqsLambda n k svc abortSignal batchSize endpoint handler logger queue env_region w =
     (let logger' = (case logger of None \<Rightarrow> NoLogger | Some l \<Rightarrow> l)
      in case (case queue of
                 QueueName name \<Rightarrow>
                   (case send svc endpoint (GetQueueUrlCommand name) None w of
                      (Inl e, w1) \<Rightarrow> (Inl e, w1)
                    | (Inr res, w1) \<Rightarrow> (Inr (QueueUrl_of res), w1))
               | QueueUrl url \<Rightarrow> (Inr (Some url), w)) of
           (Inl e, w1) \<Rightarrow> (Raised e, w1)
         | (Inr queueUrl, w1) \<Rightarrow>
             poll_loop n k svc abortSignal batchSize endpoint handler logger' env_region
               queueUrl w1)"

section \<open>An in-memory queue service\<close>

text \<open>
  A small stand-in for the service, on which the helpers can be run: named queues with
  their attributes and messages, and the \<open>aborted\<close> flag of the one abort signal. It
  answers as the service's interface description says: a receive request must ask for 1
  to 10 messages and gets at most that many; only the attributes asked for are reported;
  a request that carries an aborted signal fails with an \<open>AbortError\<close>.
\<close>

record memory =
  queues :: "(string \<times> jsobj \<times> message list) list"
  abortedFlag :: bool

definition url_of :: "string \<Rightarrow> string" where
  "url_of name = ''queue/'' @ name"

definition find_queue :: "string option \<Rightarrow> memory \<Rightarrow> (string \<times> jsobj \<times> message list) option" where
  "find_queue url m =
     (case url of None \<Rightarrow> None | Some u \<Rightarrow> find (\<lambda>(n, q). url_of n = u) (queues m))"

definition signalled :: "memory abort_signal \<Rightarrow> memory \<Rightarrow> bool" where
  "signalled sig m = (case sig of None \<Rightarrow> False | Some aborted \<Rightarrow> aborted m)"

definition abort_error :: error where
  "abort_error = ErrorObj ''AbortError'' ''Request aborted''"

fun memory_sqs :: "memory service" where
  "memory_sqs ep (GetQueueUrlCommand n) sig m =
     (case map_of (queues m) n of
        None \<Rightarrow> (Inl QueueDoesNotExist, m)
      | Some q \<Rightarrow> (Inr (GetQueueUrlResult (Some (url_of n))), m))"
| "memory_sqs ep (GetQueueAttributesCommand names url) sig m =
     (case find_queue url m of
        None \<Rightarrow> (Inl QueueDoesNotExist, m)
      | Some (n, attrs, msgs) \<Rightarrow>
          (Inr (GetQueueAttributesResult (Some (filter (\<lambda>(k, v). k \<in> set names) attrs))), m))"
| "memory_sqs ep (CreateQueueCommand n attrs) sig m =
     (case map_of (queues m) n of
        None \<Rightarrow>
          (Inr (GetQueueUrlResult (Some (url_of n))),
           m\<lparr>queues := queues m @ [(n, assign DEFAULT_ATTRIBUTES attrs, [])]\<rparr>)
      | Some (attrs', msgs) \<Rightarrow>
          if attrs' = assign DEFAULT_ATTRIBUTES attrs
          then (Inr (GetQueueUrlResult (Some (url_of n))), m)
          else (Inl QueueNameExists, m))"
| "memory_sqs ep (DeleteQueueCommand url) sig m =
     (case find_queue url m of
        None \<Rightarrow> (Inl QueueDoesNotExist, m)
      | Some (n, q) \<Rightarrow> (Inr EmptyResult, m\<lparr>queues := filter (\<lambda>(n', q'). n' \<noteq> n) (queues m)\<rparr>))"
| "memory_sqs ep (ReceiveMessageCommand mx url vis wt) sig m =
     (if signalled sig m then (Inl abort_error, m)
      else if mx < 1 \<or> 10 < mx then (Inl (ErrorObj ''InvalidParameterValue'' []), m)
      else (case find_queue url m of
              None \<Rightarrow> (Inl QueueDoesNotExist, m)
            | Some (n, attrs, msgs) \<Rightarrow>
                (Inr (ReceiveMessageResult (if msgs = [] then None else Some (take (nat mx) msgs))),
                 m)))"
| "memory_sqs ep (DeleteMessageBatchCommand url entries) sig m =
     (if signalled sig m then (Inl abort_error, m)
      else (case find_queue url m of
              None \<Rightarrow> (Inl QueueDoesNotExist, m)
            | Some (n, q) \<Rightarrow>
                (Inr EmptyResult,
                 m\<lparr>queues :=
                     map (\<lambda>(n', attrs, msgs).
                            if n' = n
                            then (n', attrs,
                                  filter (\<lambda>msg. (MessageId msg, ReceiptHandle msg) \<notin> set entries) msgs)
                            else (n', attrs, msgs))
                         (queues m)\<rparr>)))"
| "memory_sqs ep (PurgeQueueCommand url) sig m =
     (case find_queue url m of
        None \<Rightarrow> (Inl QueueDoesNotExist, m)
      | Some (n, q) \<Rightarrow>
          (Inr EmptyResult,
           m\<lparr>queues := map (\<lambda>(n', attrs, msgs). if n' = n then (n', attrs, []) else (n', attrs, msgs))
                          (queues m)\<rparr>))"

text \<open>
  What a batched \<open>getMessages\<close> may show under the batch size \<open>b\<close>: while it is in its
  loop the accumulated list is shorter than \<open>b\<close>, and the list it returns has exactly
  \<open>b\<close> messages.
\<close>

definition batch_outcome_ok :: "int \<Rightarrow> (message list, message list) run \<Rightarrow> bool" where
  "batch_outcome_ok b r =
     (case r of
        Running ms \<Rightarrow> 0 \<le> int (length ms) \<and> int (length ms) < b
      | Returned ms \<Rightarrow> int (length ms) = b
      | Raised e \<Rightarrow> True)"

subsection \<open>Sample worlds, handlers and loggers\<close>

text \<open>Concrete inputs on which the helpers are run further down.\<close>

definition msg :: "string \<Rightarrow> string \<Rightarrow> message" where
  "msg i b = \<lparr>MessageId = Some i, ReceiptHandle = Some (''rh'' @ i), Body = Some b, MD5OfBody = None\<rparr>"

definition demo_world :: "memory world" where
  "demo_world =
     \<lparr>env = \<lparr>queues = [(''q'', DEFAULT_ATTRIBUTES,
                        [msg ''0'' ''{}'', msg ''1'' ''not json'', msg ''2'' ''{}''])],
             abortedFlag = False\<rparr>,
      sent = []\<rparr>"

definition empty_world :: "memory world" where
  "empty_world = \<lparr>env = \<lparr>queues = [], abortedFlag = False\<rparr>, sent = []\<rparr>"

definition toy_parse :: "string \<Rightarrow> string + unit" where
  "toy_parse s = (if s = ''{}'' then Inr () else Inl ''Unexpected token'')"

definition failing_handler :: "memory handler" where
  "failing_handler ev m =
     (\<lparr>sync_calls = [], finish = Throws (JObj 0), before_timer = [], after_timer = []\<rparr>, m)"

definition throwing_logger :: "memory logger" where
  "throwing_logger lvl line p m =
     (case lvl of LInfo \<Rightarrow> (None, m) | LError \<Rightarrow> (Some (ErrorObj ''Error'' ''logger failure''), m))"

definition aborting_logger :: "memory logger" where
  "aborting_logger lvl line p m = (None, m\<lparr>abortedFlag := True\<rparr>)"

section \<open>Properties of the invocation engine\<close>

lemma resolve_pending: "pending e \<Longrightarrow> settled_with (resolution r) (resolve r e)"
  by (simp add: pending_def settled_with_def resolve_def clearTimer_def innerResolve_def Let_def)

lemma resolve_value_pending:
  "pending e \<Longrightarrow> settled_with (Some (Fulfilled v)) (resolve (Value v) e)"
  using resolve_pending [of e "Value v"] by simp

lemma reject_pending: "pending e \<Longrightarrow> settled_with (Some (Rejected v)) (reject v e)"
  by (simp add: pending_def settled_with_def reject_def clearTimer_def innerReject_def Let_def)

lemma resolve_settled: "settled_with s e \<Longrightarrow> resolve v e = e"
  by (simp add: settled_with_def resolve_def clearTimer_def Let_def)

lemma reject_settled: "settled_with s e \<Longrightarrow> reject v e = e"
  by (simp add: settled_with_def reject_def clearTimer_def Let_def)

lemma perform_pending: "pending e \<Longrightarrow> settled_with (outcome (SCall c)) (perform c e)"
  by (cases c) (simp_all add: callback_def resolve_pending resolve_value_pending reject_pending)

lemma perform_settled: "settled_with s e \<Longrightarrow> perform c e = e"
  by (cases c) (simp_all add: callback_def resolve_settled reject_settled)

lemma settled_with_thenPending [simp]:
  "settled_with s (e\<lparr>thenPending := b\<rparr>) = settled_with s e"
  by (simp add: settled_with_def)

lemma pending_thenPending [simp]:
  "pending (e\<lparr>thenPending := b\<rparr>) = pending e"
  by (simp add: pending_def)

lemma deliver_settled: "settled_with s e \<Longrightarrow> settled_with s (deliver x e)"
  by (cases x) (auto simp: perform_settled resolve_settled reject_settled split: settlement.splits)

lemma fold_deliver_settled: "settled_with s e \<Longrightarrow> settled_with s (fold deliver xs e)"
  by (induction xs arbitrary: e) (simp_all add: deliver_settled)

lemma fold_perform_settled: "settled_with s e \<Longrightarrow> fold perform cs e = e"
  by (induction cs arbitrary: e) (simp_all add: perform_settled)

lemma timer_fires_settled: "settled_with s e \<Longrightarrow> timer_fires e = e"
  by (simp add: settled_with_def timer_fires_def)

lemma timer_fires_pending:
  "pending e \<Longrightarrow> settled_with (Some (Rejected timeout_sentinel)) (timer_fires e)"
  by (simp add: pending_def settled_with_def timer_fires_def reject_def clearTimer_def innerReject_def Let_def)

lemma deliver_pending:
  "pending e \<Longrightarrow>
     (observed (thenPending e) [x] = [] \<longrightarrow> deliver x e = e) \<and>
     (\<forall>s. observed (thenPending e) [x] = [s] \<longrightarrow> settled_with (outcome s) (deliver x e))"
proof (cases x)
  case (Call c)
  assume "pending e"
  with Call show ?thesis by (simp add: perform_pending)
next
  case (PromiseSettles s)
  assume "pending e"
  with PromiseSettles show ?thesis
    by (cases s) (simp_all add: resolve_value_pending reject_pending)
qed

lemma observed_Cons:
  "observed p (x # xs) =
     (case observed p [x] of [] \<Rightarrow> observed p xs | s # _ \<Rightarrow> s # observed (p \<and> (\<forall>c. x \<noteq> PromiseSettles c)) xs)"
  by (cases x) auto

lemma fold_deliver_none:
  "pending e \<Longrightarrow> observed (thenPending e) xs = [] \<Longrightarrow> fold deliver xs e = e"
proof (induction xs)
  case Nil
  then show ?case by simp
next
  case (Cons x xs)
  from Cons.prems have a: "observed (thenPending e) [x] = []" and b: "observed (thenPending e) xs = []"
    by (cases x; simp split: if_splits)+
  from deliver_pending [OF Cons.prems(1), of x] a have "deliver x e = e" by blast
  with Cons.IH [OF Cons.prems(1) b] show ?case by simp
qed

lemma fold_deliver_first:
  "pending e \<Longrightarrow> observed (thenPending e) xs = s # ss \<Longrightarrow>
     settled_with (outcome s) (fold deliver xs e)"
proof (induction xs)
  case Nil
  then show ?case by simp
next
  case (Cons x xs)
  show ?case
  proof (cases "observed (thenPending e) [x]")
    case Nil
    with deliver_pending [OF Cons.prems(1), of x] have d: "deliver x e = e" by blast
    from Nil Cons.prems(2) have "observed (thenPending e) xs = s # ss"
      by (cases x; simp split: if_splits)
    from Cons.IH [OF Cons.prems(1) this] d show ?thesis by simp
  next
    case (Cons t ts)
    with Cons.prems(2) have "observed (thenPending e) [x] = [s]"
      by (cases x; simp split: if_splits)
    with deliver_pending [OF Cons.prems(1), of x]
    have "settled_with (outcome s) (deliver x e)" by blast
    then show ?thesis by (simp add: fold_deliver_settled)
  qed
qed

lemma fold_perform_first:
  "pending e \<Longrightarrow> settled_with (outcome (SCall c)) (fold perform (c # cs) e)"
proof -
  assume "pending e"
  then have s: "settled_with (outcome (SCall c)) (perform c e)" by (rule perform_pending)
  from fold_perform_settled [OF s] s show ?thesis by simp
qed

lemma run_sync_calls:
  "pending e \<Longrightarrow> sync_calls h = c # cs \<Longrightarrow> settled_with (outcome (SCall c)) (run_sync h e)"
  using fold_perform_first [of e c cs]
  by (cases "finish h" rule: finish.exhaust; simp add: run_sync_def Let_def reject_settled split: ret.splits)

lemma run_sync_throws:
  "pending e \<Longrightarrow> sync_calls h = [] \<Longrightarrow> finish h = Throws err \<Longrightarrow>
     settled_with (outcome (SThrow err)) (run_sync h e)"
  by (simp add: run_sync_def reject_pending)

lemma run_sync_returns:
  "pending e \<Longrightarrow> sync_calls h = [] \<Longrightarrow> finish h = Returns r \<Longrightarrow>
     pending (run_sync h e) \<and> thenPending (run_sync h e) = (returns_promise (finish h) \<or> thenPending e)"
  by (cases r) (simp_all add: run_sync_def)

lemma pending_setTimer: "pending (setTimer initial_engine)" "\<not> thenPending (setTimer initial_engine)"
  by (simp_all add: pending_def setTimer_def initial_engine_def)

lemma settled_rest:
  "settled_with s e \<Longrightarrow>
     promise (fold deliver ys (timer_fires (fold deliver xs e))) = Resolved s"
  using fold_deliver_settled [of s "timer_fires (fold deliver xs e)" ys]
    fold_deliver_settled [of s e xs]
  by (simp add: timer_fires_settled settled_with_def)

text \<open>
  The promise is resolved by the first signal and by nothing else: the flag
  \<open>promiseSettled\<close> and the cleared timer make every later signal a no-op.
\<close>

lemma first_signal_wins:
  "invokeLambda h = map_option output_of (outcome (first_signal h))"
proof -
  let ?e0 = "setTimer initial_engine"
  have "promise (run_engine h) = Resolved (outcome (first_signal h))"
  proof (cases "sync_calls h")
    case (Cons c cs)
    then have "first_signal h = SCall c"
      by (simp add: first_signal_def signals_before_timer_def)
    with run_sync_calls [OF pending_setTimer(1) Cons] show ?thesis
      by (simp add: run_engine_def settled_rest)
  next
    case Nil
    show ?thesis
    proof (cases "finish h")
      case (Throws err)
      with Nil have "first_signal h = SThrow err"
        by (simp add: first_signal_def signals_before_timer_def)
      with run_sync_throws [OF pending_setTimer(1) Nil Throws] show ?thesis
        by (simp add: run_engine_def settled_rest)
    next
      case (Returns r)
      from run_sync_returns [OF pending_setTimer(1) Nil Returns]
      have p: "pending (run_sync h ?e0)"
        and t: "thenPending (run_sync h ?e0) = returns_promise (finish h)"
        by (simp_all add: pending_setTimer(2))
      show ?thesis
      proof (cases "observed (returns_promise (finish h)) (before_timer h)")
        case Nil': Nil
        with Nil Returns have f: "first_signal h = STimer"
          by (simp add: first_signal_def signals_before_timer_def)
        from fold_deliver_none [OF p] Nil' t
        have "fold deliver (before_timer h) (run_sync h ?e0) = run_sync h ?e0" by simp
        with timer_fires_pending [OF p] f show ?thesis
          using fold_deliver_settled [of "Some (Rejected timeout_sentinel)"
              "timer_fires (run_sync h ?e0)" "after_timer h"]
          by (simp add: run_engine_def settled_with_def)
      next
        case (Cons s ss)
        with Nil Returns have f: "first_signal h = s"
          by (simp add: first_signal_def signals_before_timer_def)
        from fold_deliver_first [OF p, of "before_timer h" s ss] Cons t
        have "settled_with (outcome s) (fold deliver (before_timer h) (run_sync h ?e0))" by simp
        then have "settled_with (outcome s) (timer_fires (fold deliver (before_timer h) (run_sync h ?e0)))"
          by (simp add: timer_fires_settled)
        from fold_deliver_settled [OF this, of "after_timer h"] f show ?thesis
          by (simp add: run_engine_def settled_with_def)
      qed
    qed
  qed
  then show ?thesis by (simp add: invokeLambda_def)
qed

subsection \<open>Claims about the invocation engine\<close>

text \<open>
  C1. Settlement is single-write. For every handler, what \<open>invokeLambda\<close> does is what
  the first completion signal asks for, a result handed over as a promise being followed
  to its settlement: the call returns that outcome, or never returns when the first
  signal hands over a promise that never settles. Two executions that agree on their
  first signal end alike, so no later call of the callback or of a context method, no
  later settlement of the returned promise and no later timer has an effect.
\<close>

theorem invokeLambda_single_write:
  "invokeLambda h = map_option output_of (outcome (first_signal h)) \<and>
   (\<forall>h'. first_signal h' = first_signal h \<longrightarrow> invokeLambda h' = invokeLambda h) \<and>
   (\<forall>s. outcome (first_signal h) = Some s \<longrightarrow> invokeLambda h = Some (output_of s))"
  by (simp add: first_signal_wins)

theorem invokeLambda_single_write_witness:
  "invokeLambda \<lparr>sync_calls = [Succeed (Value (JNum 1)), Fail (JObj 0)], finish = Returns PromiseRet,
       before_timer = [PromiseSettles (Rejected (JObj 1))],
       after_timer = [Call (Callback Null (Value (JNum 2)))]\<rparr>
     = Some (Success (JNum 1)) \<and>
   invokeLambda \<lparr>sync_calls = [Succeed (Value (JNum 1))], finish = Returns (Plain Undefined),
       before_timer = [], after_timer = []\<rparr>
     = invokeLambda \<lparr>sync_calls = [Succeed (Value (JNum 1)), Fail (JObj 0)], finish = Returns PromiseRet,
       before_timer = [PromiseSettles (Rejected (JObj 1))],
       after_timer = [Call (Callback Null (Value (JNum 2)))]\<rparr> \<and>
   invokeLambda \<lparr>sync_calls = [Succeed (Thenable (Some (Rejected (JObj 5)))), Succeed (Value (JNum 1))],
       finish = Throws (JObj 2), before_timer = [], after_timer = []\<rparr>
     = Some (Failure (JObj 5) False) \<and>
   invokeLambda \<lparr>sync_calls = [Succeed (Thenable None), Fail (JObj 0)],
       finish = Returns (Plain Undefined), before_timer = [], after_timer = []\<rparr>
     = None"
  using invokeLambda_single_write
    [of "\<lparr>sync_calls = [Succeed (Value (JNum 1)), Fail (JObj 0)], finish = Returns PromiseRet,
       before_timer = [PromiseSettles (Rejected (JObj 1))],
       after_timer = [Call (Callback Null (Value (JNum 2)))]\<rparr>"]
    invokeLambda_single_write
    [of "\<lparr>sync_calls = [Succeed (Thenable (Some (Rejected (JObj 5)))), Succeed (Value (JNum 1))],
       finish = Throws (JObj 2), before_timer = [], after_timer = []\<rparr>"]
    invokeLambda_single_write
    [of "\<lparr>sync_calls = [Succeed (Thenable None), Fail (JObj 0)],
       finish = Returns (Plain Undefined), before_timer = [], after_timer = []\<rparr>"]
  by (simp add: first_signal_def signals_before_timer_def output_of_def timeout_sentinel_def)

text \<open>
  C2, as stated, fails: a value that the handler returns is passed on only when it is a
  \<open>Promise\<close> (\<open>if (result instanceof Promise)\<close>). A handler that returns the plain
  value \<open>"result"\<close> and does nothing else ends in the timeout failure, while the same
  value given to the callback is a success.
\<close>

theorem invokeLambda_plain_return_counterexample:
  "invokeLambda \<lparr>sync_calls = [], finish = Returns (Plain (JStr ''result'')),
       before_timer = [], after_timer = []\<rparr> = Some (Failure Undefined True) \<and>
   invokeLambda \<lparr>sync_calls = [Callback Null (Value (JStr ''result''))],
       finish = Returns (Plain Undefined),
       before_timer = [], after_timer = []\<rparr> = Some (Success (JStr ''result''))"
  by (simp add: invokeLambda_def run_engine_def run_sync_def initial_engine_def setTimer_def
      timer_fires_def callback_def resolve_def reject_def clearTimer_def innerResolve_def
      innerReject_def output_of_def timeout_sentinel_def Let_def)

text \<open>
  C2, amended. A handler that returns a \<open>Promise\<close> whose settlement is the first
  completion signal makes \<open>invokeLambda\<close> settle with that outcome, exactly as a handler
  does whose first signal is a call of the callback or of a context method asking for the
  same outcome; the value of a plain (non-\<open>Promise\<close>) return is not a completion signal
  and never shows in the result.
\<close>

theorem invokeLambda_promise_return:
  assumes "sync_calls h = []" and "finish h = Returns PromiseRet"
    and "before_timer h = PromiseSettles s # evs"
  shows "invokeLambda h = Some (output_of s) \<and>
    (\<forall>h' c cs. sync_calls h' = c # cs \<and> outcome (SCall c) = Some s \<longrightarrow>
        invokeLambda h' = invokeLambda h) \<and>
    (\<forall>v w. invokeLambda (h\<lparr>finish := Returns (Plain v)\<rparr>) =
        invokeLambda (h\<lparr>finish := Returns (Plain w)\<rparr>))"
proof -
  from assms have f: "first_signal h = SSettled s"
    by (simp add: first_signal_def signals_before_timer_def)
  have a: "invokeLambda h = Some (output_of s)"
    using first_signal_wins [of h] f by simp
  have b: "invokeLambda h' = invokeLambda h"
    if "sync_calls h' = c # cs \<and> outcome (SCall c) = Some s" for h' c cs
  proof -
    from that have "first_signal h' = SCall c"
      by (simp add: first_signal_def signals_before_timer_def)
    with first_signal_wins [of h'] that a show ?thesis by simp
  qed
  have c: "invokeLambda (h\<lparr>finish := Returns (Plain v)\<rparr>) =
      invokeLambda (h\<lparr>finish := Returns (Plain w)\<rparr>)" for v w
    by (simp add: first_signal_wins first_signal_def signals_before_timer_def)
  from a b c show ?thesis by blast
qed

theorem invokeLambda_promise_return_witness:
  "invokeLambda \<lparr>sync_calls = [], finish = Returns PromiseRet,
       before_timer = [PromiseSettles (Fulfilled (JStr ''result''))], after_timer = []\<rparr>
     = Some (Success (JStr ''result'')) \<and>
   invokeLambda \<lparr>sync_calls = [Succeed (Value (JStr ''result''))], finish = Returns (Plain Undefined),
       before_timer = [], after_timer = []\<rparr>
     = Some (Success (JStr ''result''))"
  using invokeLambda_promise_return
    [of "\<lparr>sync_calls = [], finish = Returns PromiseRet,
       before_timer = [PromiseSettles (Fulfilled (JStr ''result''))], after_timer = []\<rparr>"
      "Fulfilled (JStr ''result'')" "[]"]
  by (simp add: output_of_def)





text \<open>
  C9. When the first completion signal is a failure (a rejection, a truthy error given to
  the callback, to \<open>fail\<close> or to \<open>done\<close>, or a synchronous throw) whose error is the
  string \<open>"lambda-helper-timeout"\<close>, the output is the failed one with \<open>timeout = true\<close>
  and \<open>error = undefined\<close>: the output of a handler that does nothing until the timer
  expires.
\<close>

theorem invokeLambda_sentinel_is_timeout:
  assumes "failure_value (first_signal h) = Some timeout_sentinel"
  shows "invokeLambda h = Some (Failure Undefined True) \<and> invokeLambda h = invokeLambda idle_run"
proof -
  from assms have "outcome (first_signal h) = Some (Rejected timeout_sentinel)"
    by (auto simp: failure_value_def
        split: signal.splits call.splits settlement.splits if_splits)
  then have "invokeLambda h = Some (Failure Undefined True)"
    using first_signal_wins [of h] by (simp add: output_of_def)
  moreover have "invokeLambda idle_run = Some (Failure Undefined True)"
    by (simp add: first_signal_wins first_signal_def signals_before_timer_def idle_run_def
        output_of_def)
  ultimately show ?thesis by simp
qed

theorem invokeLambda_sentinel_is_timeout_witness:
  "failure_value (first_signal \<lparr>sync_calls = [], finish = Throws (JStr ''lambda-helper-timeout''),
       before_timer = [], after_timer = []\<rparr>) = Some timeout_sentinel \<and>
   invokeLambda \<lparr>sync_calls = [], finish = Throws (JStr ''lambda-helper-timeout''),
       before_timer = [], after_timer = []\<rparr> = Some (Failure Undefined True)"
  using invokeLambda_sentinel_is_timeout
    [of "\<lparr>sync_calls = [], finish = Throws (JStr ''lambda-helper-timeout''),
       before_timer = [], after_timer = []\<rparr>"]
  by (simp add: first_signal_def signals_before_timer_def failure_value_def timeout_sentinel_def)

section \<open>Properties of the queue client\<close>

lemma sent_send:
  "send svc ep cmd sig w = (r, w') \<Longrightarrow> sent w' = sent w @ [(ep, cmd)]"
  by (auto simp: send_def split: prod.splits)

lemma receive_sizes_append:
  "receive_sizes (xs @ ys) = receive_sizes xs @ receive_sizes ys"
  by (induction xs rule: receive_sizes.induct) simp_all

lemma deleted_entries_append:
  "deleted_entries (xs @ ys) = deleted_entries xs @ deleted_entries ys"
  by (induction xs rule: deleted_entries.induct) simp_all

lemma sent_since_append: "sent w' = sent w @ cs \<Longrightarrow> sent_since w w' = cs"
  by (simp add: sent_since_def)

text \<open>One round of \<open>receiveMessages\<close>: what it sends, and what it returns.\<close>

lemma receiveMessages_sent:
  assumes "receiveMessages svc sig batchSize ep keep url messages w = (r, w')"
  shows "\<exists>cs. sent w' = sent w @ cs \<and>
           receive_sizes cs = [maxNumberOfMessages batchSize messages] \<and>
           (\<forall>new. r = Inr new \<and> \<not> keep \<longrightarrow> deleted_entries cs = delete_entries new)"
proof -
  let ?rc = "ReceiveMessageCommand (maxNumberOfMessages batchSize messages) url (Some 0)
                (waitTimeSeconds batchSize)"
  obtain r1 w1 where s1: "send svc ep ?rc sig w = (r1, w1)" by (cases "send svc ep ?rc sig w")
  from sent_send [OF s1] have l1: "sent w1 = sent w @ [(ep, ?rc)]" .
  show ?thesis
  proof (cases r1)
    case (Inl e)
    with assms s1 have "w' = w1" "r = Inl e" by (simp_all add: receiveMessages_def)
    with l1 show ?thesis by simp
  next
    case (Inr res)
    show ?thesis
    proof (cases "Messages_of res")
      case None
      with assms s1 Inr have "w' = w1" "r = Inr []" by (simp_all add: receiveMessages_def)
      with l1 show ?thesis by (simp add: delete_entries_def)
    next
      case (Some ms)
      show ?thesis
      proof (cases "ms \<noteq> [] \<and> \<not> keep")
        case False
        with assms s1 Inr Some have "w' = w1" "r = Inr ms" by (simp_all add: receiveMessages_def)
        with l1 False show ?thesis by (auto simp: delete_entries_def)
      next
        case True
        let ?dc = "DeleteMessageBatchCommand url (delete_entries ms)"
        obtain r2 w2 where s2: "send svc ep ?dc sig w1 = (r2, w2)"
          by (cases "send svc ep ?dc sig w1")
        from sent_send [OF s2] l1 have l2: "sent w2 = sent w @ [(ep, ?rc), (ep, ?dc)]" by simp
        from assms s1 Inr Some True s2 have "w' = w2" "r = (case r2 of Inl e \<Rightarrow> Inl e | Inr x \<Rightarrow> Inr ms)"
          by (simp_all add: receiveMessages_def split: sum.splits)
        with l2 show ?thesis by (auto split: sum.splits)
      qed
    qed
  qed
qed

lemma send_respects_cap:
  assumes "respects_cap svc"
    and "send svc ep (ReceiveMessageCommand mx url vis wt) sig w = (Inr res, w1)"
    and "Messages_of res = Some ms"
  shows "int (length ms) \<le> mx"
proof -
  from assms(2) obtain s' where "svc ep (ReceiveMessageCommand mx url vis wt) sig (env w) = (Inr res, s')"
    by (auto simp: send_def split: prod.splits)
  with assms(1,3) show ?thesis unfolding respects_cap_def by blast
qed

lemma receiveMessages_cap:
  assumes "respects_cap svc"
    and "receiveMessages svc sig batchSize ep keep url messages w = (Inr new, w')"
    and "0 \<le> maxNumberOfMessages batchSize messages"
  shows "int (length new) \<le> maxNumberOfMessages batchSize messages"
proof -
  let ?rc = "ReceiveMessageCommand (maxNumberOfMessages batchSize messages) url (Some 0)
                (waitTimeSeconds batchSize)"
  obtain r1 w1 where s1: "send svc ep ?rc sig w = (r1, w1)" by (cases "send svc ep ?rc sig w")
  with assms(2) obtain res where r1: "r1 = Inr res"
    by (cases r1) (simp_all add: receiveMessages_def)
  show ?thesis
  proof (cases "Messages_of res")
    case None
    with assms(2) s1 r1 have "new = []" by (simp add: receiveMessages_def)
    with assms(3) show ?thesis by simp
  next
    case (Some ms)
    with assms(2) s1 r1 have "new = ms"
      by (auto simp: receiveMessages_def split: if_splits prod.splits sum.splits)
    with send_respects_cap [OF assms(1) s1 [unfolded r1] Some] show ?thesis by simp
  qed
qed

text \<open>The loop of \<open>getMessages\<close> under a batch size, from any accumulated list that is
  still short of it.\<close>

lemma getMessages_loop_bounds:
  assumes "respects_cap svc"
    and "int (length messages) < b"
    and "getMessages_loop n svc sig (Some b) ep keep url messages w = (r, w')"
  shows "(case r of
            Running ms \<Rightarrow> int (length ms) < b
          | Returned ms \<Rightarrow> int (length ms) = b
          | Raised e \<Rightarrow> True) \<and>
         (\<exists>cs. sent w' = sent w @ cs \<and>
            list_all (\<lambda>mx. 1 \<le> mx \<and> mx \<le> min 10 (b - int (length messages))) (receive_sizes cs))"
  using assms(2,3)
proof (induction n arbitrary: messages w)
  case 0
  then show ?case by auto
next
  case (Suc n)
  obtain r1 w1 where rm: "receiveMessages svc sig (Some b) ep keep url messages w = (r1, w1)"
    by (cases "receiveMessages svc sig (Some b) ep keep url messages w")
  from receiveMessages_sent [OF rm] obtain cs1 where
    cs1: "sent w1 = sent w @ cs1" "receive_sizes cs1 = [min 10 (b - int (length messages))]"
    by (auto simp: maxNumberOfMessages_def)
  from Suc.prems(1) have mx: "1 \<le> min 10 (b - int (length messages))" by simp
  show ?case
  proof (cases r1)
    case (Inl e)
    with Suc.prems(2) rm have "r = Raised e" "w' = w1" by simp_all
    with cs1 mx show ?thesis by simp
  next
    case (Inr new)
    from receiveMessages_cap [OF assms(1) rm [unfolded Inr]] mx
    have len: "int (length new) \<le> min 10 (b - int (length messages))"
      by (simp add: maxNumberOfMessages_def)
    show ?thesis
    proof (cases "int (length (messages @ new)) < b")
      case False
      with Suc.prems(2) rm Inr have "r = Returned (messages @ new)" "w' = w1" by simp_all
      with cs1 mx len False show ?thesis by simp
    next
      case True
      with Suc.prems(2) rm Inr
      have rec: "getMessages_loop n svc sig (Some b) ep keep url (messages @ new) w1 = (r, w')"
        by simp
      from Suc.IH [OF True rec] obtain cs2 where
        a: "(case r of Running ms \<Rightarrow> int (length ms) < b | Returned ms \<Rightarrow> int (length ms) = b
             | Raised e \<Rightarrow> True)"
        and b: "sent w' = sent w1 @ cs2"
        and c: "list_all (\<lambda>mx. 1 \<le> mx \<and> mx \<le> min 10 (b - int (length (messages @ new))))
                  (receive_sizes cs2)"
        by blast
      from c have c': "list_all (\<lambda>mx. 1 \<le> mx \<and> mx \<le> min 10 (b - int (length messages)))
                  (receive_sizes cs2)"
        by (rule list.pred_mono_strong) auto
      from b cs1 have "sent w' = sent w @ (cs1 @ cs2)" by simp
      moreover from cs1 mx c'
      have "list_all (\<lambda>mx. 1 \<le> mx \<and> mx \<le> min 10 (b - int (length messages)))
              (receive_sizes (cs1 @ cs2))"
        by (simp add: receive_sizes_append)
      ultimately show ?thesis using a by blast
    qed
  qed
qed

text \<open>
  C5. Let the batch size \<open>b\<close> be at least 1 and let the service keep to the cap of a
  receive request. Then, however many iterations \<open>getMessages\<close> has run, the accumulated
  list has between 0 and \<open>b\<close> messages (fewer than \<open>b\<close> while the loop goes on, exactly
  \<open>b\<close> when it returns); every receive request it has sent asks for at least 1 and at
  most \<open>min(10, b)\<close> messages; and the request sent at the accumulated list \<open>messages\<close>
  asks for \<open>min(10, b - length messages)\<close>.
\<close>

theorem getMessages_batch_bounds:
  assumes "respects_cap svc" and "1 \<le> b"
  shows
    "batch_outcome_ok b (fst (getMessages n svc sig (Some b) ep keep url w)) \<and>
     list_all (\<lambda>mx. 1 \<le> mx \<and> mx \<le> min 10 b)
       (receive_sizes (sent_since w (snd (getMessages n svc sig (Some b) ep keep url w)))) \<and>
     (int (length messages) < b \<longrightarrow>
        batch_outcome_ok b
          (fst (getMessages_loop n svc sig (Some b) ep keep url messages w)) \<and>
        receive_sizes
          (sent_since w (snd (receiveMessages svc sig (Some b) ep keep url messages w)))
          = [min 10 (b - int (length messages))])"
proof -
  obtain r w' where g: "getMessages_loop n svc sig (Some b) ep keep url [] w = (r, w')"
    by (cases "getMessages_loop n svc sig (Some b) ep keep url [] w")
  from assms(2) have e: "int (length ([]::message list)) < b" by simp
  from getMessages_loop_bounds [OF assms(1) e g] obtain cs where
    a: "batch_outcome_ok b r" and cs: "sent w' = sent w @ cs"
    "list_all (\<lambda>mx. 1 \<le> mx \<and> mx \<le> min 10 b) (receive_sizes cs)"
    by (auto simp: batch_outcome_ok_def split: run.splits)
  from assms(2) g have gm: "getMessages n svc sig (Some b) ep keep url w = (r, w')"
    by (simp add: getMessages_def invalid_batch_size_def)
  have p1: "batch_outcome_ok b (fst (getMessages n svc sig (Some b) ep keep url w))"
    using gm a by simp
  have p2: "list_all (\<lambda>mx. 1 \<le> mx \<and> mx \<le> min 10 b)
       (receive_sizes (sent_since w (snd (getMessages n svc sig (Some b) ep keep url w))))"
    using gm cs by (simp add: sent_since_append)
  have p3: "batch_outcome_ok b
          (fst (getMessages_loop n svc sig (Some b) ep keep url messages w)) \<and>
        receive_sizes
          (sent_since w (snd (receiveMessages svc sig (Some b) ep keep url messages w)))
          = [min 10 (b - int (length messages))]" if lt: "int (length messages) < b"
  proof -
    obtain r2 w2 where g2: "getMessages_loop n svc sig (Some b) ep keep url messages w = (r2, w2)"
      by (cases "getMessages_loop n svc sig (Some b) ep keep url messages w")
    from getMessages_loop_bounds [OF assms(1) lt g2] have "batch_outcome_ok b r2"
      by (auto simp: batch_outcome_ok_def split: run.splits)
    moreover
    obtain r3 w3 where g3: "receiveMessages svc sig (Some b) ep keep url messages w = (r3, w3)"
      by (cases "receiveMessages svc sig (Some b) ep keep url messages w")
    from receiveMessages_sent [OF g3] obtain cs3 where
      "sent w3 = sent w @ cs3" "receive_sizes cs3 = [min 10 (b - int (length messages))]"
      by (auto simp: maxNumberOfMessages_def)
    then have "receive_sizes (sent_since w w3) = [min 10 (b - int (length messages))]"
      by (simp add: sent_since_append)
    ultimately show ?thesis using g2 g3 by simp
  qed
  from p1 p2 p3 show ?thesis by blast
qed

lemma respects_cap_memory_sqs: "respects_cap memory_sqs"
  unfolding respects_cap_def
  by (auto split: if_splits option.splits prod.splits)

lemmas eval_defs = getMessages_def invalid_batch_size_def receiveMessages_def send_def
  maxNumberOfMessages_def waitTimeSeconds_def delete_entries_def find_queue_def url_of_def
  signalled_def demo_world_def empty_world_def msg_def DEFAULT_ATTRIBUTES_def

lemma demo_getMessages:
  "getMessages 3 memory_sqs None (Some 2) ''ep'' False (Some ''queue/q'') demo_world =
     (Returned [msg ''0'' ''{}'', msg ''1'' ''not json''], 
      \<lparr>env = \<lparr>queues = [(''q'', DEFAULT_ATTRIBUTES, [msg ''2'' ''{}''])], abortedFlag = False\<rparr>,
       sent = [(''ep'', ReceiveMessageCommand 2 (Some ''queue/q'') (Some 0) 20),
               (''ep'', DeleteMessageBatchCommand (Some ''queue/q'')
                          [(Some ''0'', Some ''rh0''), (Some ''1'', Some ''rh1'')])]\<rparr>)"
  by (simp add: eval_defs numeral_3_eq_3)

lemma demo_getMessages1:
  "getMessages (Suc 0) memory_sqs None (Some 1) ''ep'' False (Some ''queue/q'') demo_world =
     (Returned [msg ''0'' ''{}''],
      \<lparr>env = \<lparr>queues = [(''q'', DEFAULT_ATTRIBUTES, [msg ''1'' ''not json'', msg ''2'' ''{}''])],
              abortedFlag = False\<rparr>,
       sent = [(''ep'', ReceiveMessageCommand 1 (Some ''queue/q'') (Some 0) 20),
               (''ep'', DeleteMessageBatchCommand (Some ''queue/q'') [(Some ''0'', Some ''rh0'')])]\<rparr>)"
  by (simp add: eval_defs)

theorem getMessages_batch_bounds_witness:
  "respects_cap memory_sqs \<and> (1::int) \<le> 2 \<and>
   batch_outcome_ok 2
     (fst (getMessages 3 memory_sqs None (Some 2) ''ep'' False (Some ''queue/q'') demo_world)) \<and>
   receive_sizes (sent_since demo_world
     (snd (getMessages 3 memory_sqs None (Some 2) ''ep'' False (Some ''queue/q'') demo_world)))
     = [2] \<and>
   fst (getMessages 3 memory_sqs None (Some 2) ''ep'' False (Some ''queue/q'') demo_world)
     = Returned [msg ''0'' ''{}'', msg ''1'' ''not json'']"
  using getMessages_batch_bounds [OF respects_cap_memory_sqs, of 2 3 None "''ep''" False "Some ''queue/q''" demo_world "[]"]
    respects_cap_memory_sqs
  by (simp add: demo_getMessages sent_since_def) (simp add: demo_world_def)

lemma parse_messages_fails:
  "\<exists>m\<in>set ms. isl (parse (body_text m)) \<Longrightarrow>
     \<exists>t. parse_messages parse ms = Inl (ErrorObj ''SyntaxError'' t)"
proof (induction ms)
  case Nil
  then show ?case by simp
next
  case (Cons m ms)
  show ?case
  proof (cases "parse (body_text m)")
    case (Inl t)
    then show ?thesis by simp
  next
    case (Inr obj)
    with Cons.prems have "\<exists>m\<in>set ms. isl (parse (body_text m))" by auto
    from Cons.IH [OF this] Inr show ?thesis by auto
  qed
qed

lemma getMessages_loop_deletes:
  assumes "\<not> keep"
    and "getMessages_loop n svc sig batchSize ep keep url messages w = (Returned ms, w')"
  shows "\<exists>new cs. ms = messages @ new \<and> sent w' = sent w @ cs \<and>
           set (delete_entries new) \<subseteq> set (deleted_entries cs)"
  using assms(2)
proof (induction n arbitrary: messages w)
  case 0
  then show ?case by simp
next
  case (Suc n)
  obtain r1 w1 where rm: "receiveMessages svc sig batchSize ep keep url messages w = (r1, w1)"
    by (cases "receiveMessages svc sig batchSize ep keep url messages w")
  with Suc.prems obtain new where r1: "r1 = Inr new" by (cases r1) simp_all
  from receiveMessages_sent [OF rm] r1 assms(1) obtain cs1 where
    cs1: "sent w1 = sent w @ cs1" "deleted_entries cs1 = delete_entries new"
    by blast
  show ?case
  proof (cases "\<exists>b. batchSize = Some b \<and> int (length (messages @ new)) < b")
    case False
    with Suc.prems rm r1 have "ms = messages @ new" "w' = w1"
      by (auto split: option.splits if_splits)
    with cs1 show ?thesis by auto
  next
    case True
    with Suc.prems rm r1
    have "getMessages_loop n svc sig batchSize ep keep url (messages @ new) w1 = (Returned ms, w')"
      by auto
    from Suc.IH [OF this] obtain new2 cs2 where
      n2: "ms = (messages @ new) @ new2" "sent w' = sent w1 @ cs2"
      "set (delete_entries new2) \<subseteq> set (deleted_entries cs2)"
      by blast
    from n2 cs1 have "ms = messages @ (new @ new2)" "sent w' = sent w @ (cs1 @ cs2)"
      "set (delete_entries (new @ new2)) \<subseteq> set (deleted_entries (cs1 @ cs2))"
      by (auto simp: deleted_entries_append delete_entries_def)
    then show ?thesis by blast
  qed
qed

lemma parse_messages_succeeds:
  "list_all2 (\<lambda>m obj. parse (body_text m) = Inr obj) ms objs \<Longrightarrow>
     parse_messages parse ms = Inr (zip ms objs)"
  by (induction ms objs rule: list_all2_induct) simp_all

lemma parse_messages_first_failure:
  "list_all2 (\<lambda>m obj. parse (body_text m) = Inr obj) pre objs \<Longrightarrow>
   parse (body_text m) = Inl t \<Longrightarrow>
     parse_messages parse (pre @ m # post) = Inl (ErrorObj ''SyntaxError'' t)"
  by (induction pre objs rule: list_all2_induct) simp_all

lemma body_text_parsed:
  "list_all2 (\<lambda>m obj. \<exists>b. Body m = Some b \<and> parse b = Inr obj) ms objs \<Longrightarrow>
     list_all2 (\<lambda>m obj. parse (body_text m) = Inr obj) ms objs"
  by (erule list_all2_mono) (auto simp: body_text_def)

text \<open>
  C10. \<open>getJsonMessages\<close> parses the bodies once \<open>getMessages\<close> has returned, in the
  world that \<open>getMessages\<close> left, and it is all or nothing:
  \<^item> if some message of the batch has no body or a body that \<open>JSON.parse\<close> rejects, the
    call throws a \<open>SyntaxError\<close> and returns no message at all;
  \<^item> the error thrown is that of the first such message, the bodies before it having
    parsed;
  \<^item> if every message has a body that parses, the call returns every message of the
    batch, in order, each with the object parsed from its own body;
  \<^item> without \<open>keep\<close>, in either case, a batch deletion has been sent for every message
    of the batch.

  (\<open>JSON.parse\<close> rejects the string \<open>undefined\<close>, which is how it reads an absent body.)
\<close>

theorem getJsonMessages_all_or_nothing:
  assumes "getMessages n svc sig batchSize ep keep url w = (Returned ms, w1)"
    and "isl (parse ''undefined'')"
  shows
    "((\<exists>m\<in>set ms. Body m = None \<or> (\<exists>b. Body m = Some b \<and> isl (parse b))) \<longrightarrow>
        (\<exists>t. getJsonMessages n parse svc sig batchSize ep keep url w
                = (Raised (ErrorObj ''SyntaxError'' t), w1))) \<and>
     (\<forall>pre m post objs t.
        ms = pre @ m # post \<and>
        list_all2 (\<lambda>m obj. \<exists>b. Body m = Some b \<and> parse b = Inr obj) pre objs \<and>
        ((Body m = None \<and> parse ''undefined'' = Inl t) \<or> (\<exists>b. Body m = Some b \<and> parse b = Inl t))
        \<longrightarrow> getJsonMessages n parse svc sig batchSize ep keep url w
                = (Raised (ErrorObj ''SyntaxError'' t), w1)) \<and>
     (\<forall>objs.
        list_all2 (\<lambda>m obj. \<exists>b. Body m = Some b \<and> parse b = Inr obj) ms objs
        \<longrightarrow> getJsonMessages n parse svc sig batchSize ep keep url w
                = (Returned (zip ms objs), w1)) \<and>
     (\<not> keep \<longrightarrow> set (delete_entries ms) \<subseteq> set (deleted_entries (sent_since w w1)))"
proof -
  have a: "\<exists>t. getJsonMessages n parse svc sig batchSize ep keep url w
             = (Raised (ErrorObj ''SyntaxError'' t), w1)"
    if "\<exists>m\<in>set ms. Body m = None \<or> (\<exists>b. Body m = Some b \<and> isl (parse b))"
  proof -
    from that obtain m where m: "m \<in> set ms"
      "Body m = None \<or> (\<exists>b. Body m = Some b \<and> isl (parse b))" by blast
    with assms(2) have "isl (parse (body_text m))" by (auto simp: body_text_def)
    with m(1) have "\<exists>m\<in>set ms. isl (parse (body_text m))" by blast
    from parse_messages_fails [OF this] assms(1) show ?thesis
      by (auto simp: getJsonMessages_def)
  qed
  have b: "getJsonMessages n parse svc sig batchSize ep keep url w
             = (Raised (ErrorObj ''SyntaxError'' t), w1)"
    if "ms = pre @ m # post \<and>
        list_all2 (\<lambda>m obj. \<exists>b. Body m = Some b \<and> parse b = Inr obj) pre objs \<and>
        ((Body m = None \<and> parse ''undefined'' = Inl t) \<or> (\<exists>b. Body m = Some b \<and> parse b = Inl t))"
    for pre m post objs t
  proof -
    from that have bad: "parse (body_text m) = Inl t" by (auto simp: body_text_def)
    from that have "list_all2 (\<lambda>m obj. \<exists>b. Body m = Some b \<and> parse b = Inr obj) pre objs"
      by blast
    then have "list_all2 (\<lambda>m obj. parse (body_text m) = Inr obj) pre objs"
      by (rule body_text_parsed)
    from parse_messages_first_failure [where parse = parse and post = post, OF this bad] that
    have "parse_messages parse ms = Inl (ErrorObj ''SyntaxError'' t)" by simp
    with assms(1) show ?thesis by (simp add: getJsonMessages_def)
  qed
  have c: "getJsonMessages n parse svc sig batchSize ep keep url w = (Returned (zip ms objs), w1)"
    if "list_all2 (\<lambda>m obj. \<exists>b. Body m = Some b \<and> parse b = Inr obj) ms objs" for objs
  proof -
    from that have "list_all2 (\<lambda>m obj. parse (body_text m) = Inr obj) ms objs"
      by (rule body_text_parsed)
    then have "parse_messages parse ms = Inr (zip ms objs)"
      by (rule parse_messages_succeeds)
    with assms(1) show ?thesis by (simp add: getJsonMessages_def)
  qed
  have d: "set (delete_entries ms) \<subseteq> set (deleted_entries (sent_since w w1))" if "\<not> keep"
  proof -
    from assms(1) have "getMessages_loop n svc sig batchSize ep keep url [] w = (Returned ms, w1)"
      by (simp add: getMessages_def split: if_splits)
    from getMessages_loop_deletes [OF that this] show ?thesis
      by (auto simp: sent_since_append)
  qed
  from a b c d show ?thesis by blast
qed

theorem getJsonMessages_all_or_nothing_witness:
  "isl (toy_parse ''undefined'') \<and>
   fst (getMessages 3 memory_sqs None (Some 2) ''ep'' False (Some ''queue/q'') demo_world)
     = Returned [msg ''0'' ''{}'', msg ''1'' ''not json''] \<and>
   fst (getJsonMessages 3 toy_parse memory_sqs None (Some 2) ''ep'' False (Some ''queue/q'')
          demo_world) = Raised (ErrorObj ''SyntaxError'' ''Unexpected token'') \<and>
   set [(Some ''0'', Some ''rh0''), (Some ''1'', Some ''rh1'')]
     \<subseteq> set (deleted_entries (sent_since demo_world
           (snd (getMessages 3 memory_sqs None (Some 2) ''ep'' False (Some ''queue/q'') demo_world)))) \<and>
   fst (getJsonMessages (Suc 0) toy_parse memory_sqs None (Some 1) ''ep'' False (Some ''queue/q'')
          demo_world) = Returned [(msg ''0'' ''{}'', ())]"
proof -
  have p: "isl (toy_parse ''undefined'')" by (simp add: toy_parse_def)
  note bad = getJsonMessages_all_or_nothing [where parse = toy_parse, OF demo_getMessages p]
  note good = getJsonMessages_all_or_nothing [where parse = toy_parse, OF demo_getMessages1 p]
  have "\<exists>m\<in>set [msg ''0'' ''{}'', msg ''1'' ''not json''].
      Body m = None \<or> (\<exists>b. Body m = Some b \<and> isl (toy_parse b))"
    by (simp add: msg_def toy_parse_def)
  with bad obtain t where
    t: "getJsonMessages 3 toy_parse memory_sqs None (Some 2) ''ep'' False (Some ''queue/q'')
          demo_world = (Raised (ErrorObj ''SyntaxError'' t),
           snd (getMessages 3 memory_sqs None (Some 2) ''ep'' False (Some ''queue/q'') demo_world))"
    by (auto simp: demo_getMessages)
  from bad have first: "getJsonMessages 3 toy_parse memory_sqs None (Some 2) ''ep'' False
      (Some ''queue/q'') demo_world
        = (Raised (ErrorObj ''SyntaxError'' ''Unexpected token''),
           snd (getMessages 3 memory_sqs None (Some 2) ''ep'' False (Some ''queue/q'') demo_world))"
    by (elim conjE allE [where x = "[msg ''0'' ''{}'']"] allE [where x = "msg ''1'' ''not json''"]
        allE [where x = "[]::message list"] allE [where x = "[()]"]
        allE [where x = "''Unexpected token''"])
      (simp add: demo_getMessages msg_def toy_parse_def)
  from bad have del: "set (delete_entries [msg ''0'' ''{}'', msg ''1'' ''not json''])
      \<subseteq> set (deleted_entries (sent_since demo_world
           (snd (getMessages 3 memory_sqs None (Some 2) ''ep'' False (Some ''queue/q'') demo_world))))"
    by (simp add: demo_getMessages)
  from good have ok: "getJsonMessages (Suc 0) toy_parse memory_sqs None (Some 1) ''ep'' False
      (Some ''queue/q'') demo_world
        = (Returned (zip [msg ''0'' ''{}''] [()]),
           snd (getMessages (Suc 0) memory_sqs None (Some 1) ''ep'' False (Some ''queue/q'') demo_world))"
    by (elim conjE allE [where x = "[()]"]) (simp add: demo_getMessages1 msg_def toy_parse_def)
  from p first del ok show ?thesis
    by (simp add: demo_getMessages delete_entries_def msg_def)
qed

text \<open>
  C6. When the queue exists (its URL is resolved), the service reports attributes that
  are not shallowly equal to the defaults overlaid with the requested attributes, and
  \<open>force\<close> is not set, \<open>upsertQueue\<close> throws \<open>QueueNameExists\<close> and has sent the two
  reading commands only: no creation, no deletion, no change of any kind.
\<close>

theorem upsertQueue_conflict_no_mutation:
  assumes "svc ep (GetQueueUrlCommand name) None (env w) = (Inr r1, s1)"
    and "svc ep (GetQueueAttributesCommand recognized_names (QueueUrl_of r1)) None s1 = (Inr r2, s2)"
    and "\<not> shallowEqual (Attributes_of r2) (expected_attributes attrs)"
  shows "fst (upsertQueue svc name attrs ep False w) = Inl QueueNameExists \<and>
     sent_since w (snd (upsertQueue svc name attrs ep False w)) =
       [(ep, GetQueueUrlCommand name),
        (ep, GetQueueAttributesCommand recognized_names (QueueUrl_of r1))] \<and>
     list_all (\<lambda>(e, c). \<not> is_mutation c)
       (sent_since w (snd (upsertQueue svc name attrs ep False w)))"
  using assms
  by (simp add: upsertQueue_def upsert_try_def getQueueUrl_def send_def sent_since_def)

theorem upsertQueue_conflict_no_mutation_witness:
  "memory_sqs ''ep'' (GetQueueUrlCommand ''q'') None (env demo_world)
     = (Inr (GetQueueUrlResult (Some ''queue/q'')), env demo_world) \<and>
   \<not> shallowEqual (Some DEFAULT_ATTRIBUTES) (expected_attributes (Some [(''DelaySeconds'', ''1'')])) \<and>
   fst (upsertQueue memory_sqs ''q'' (Some [(''DelaySeconds'', ''1'')]) ''ep'' False demo_world)
     = Inl QueueNameExists \<and>
   sent_since demo_world
     (snd (upsertQueue memory_sqs ''q'' (Some [(''DelaySeconds'', ''1'')]) ''ep'' False demo_world))
     = [(''ep'', GetQueueUrlCommand ''q''),
        (''ep'', GetQueueAttributesCommand recognized_names (Some ''queue/q''))]"
  using upsertQueue_conflict_no_mutation [of memory_sqs "''ep''" "''q''" demo_world "GetQueueUrlResult (Some ''queue/q'')"
      "env demo_world" "GetQueueAttributesResult (Some DEFAULT_ATTRIBUTES)" "env demo_world"
      "Some [(''DelaySeconds'', ''1'')]"]
  by (simp add: shallowEqual_def expected_attributes_def assign_def recognized_names_def
      find_queue_def url_of_def demo_world_def DEFAULT_ATTRIBUTES_def)

text \<open>The path of an existing queue with equal attributes: a no-op, whatever \<open>force\<close>.\<close>

lemma upsertQueue_same_attributes:
  assumes "svc ep (GetQueueUrlCommand name) None (env w) = (Inr r1, s1)"
    and "svc ep (GetQueueAttributesCommand recognized_names (QueueUrl_of r1)) None s1 = (Inr r2, s2)"
    and "shallowEqual (Attributes_of r2) (expected_attributes attrs)"
  shows "upsertQueue svc name attrs ep force w =
     (Inr (QueueUrl_of r1),
      \<lparr>env = s2, sent = sent w @ [(ep, GetQueueUrlCommand name),
         (ep, GetQueueAttributesCommand recognized_names (QueueUrl_of r1))]\<rparr>)"
  using assms
  by (simp add: upsertQueue_def upsert_try_def getQueueUrl_def send_def)

lemma keys_assign:
  "fst ` set (assign target (Some src)) = fst ` set target \<union> fst ` set src"
proof -
  have "fst ` set (fold (\<lambda>(k, v) obj. AList.update k v obj) src target)
          = fst ` set target \<union> fst ` set src" for target
    by (induction src arbitrary: target) (auto simp: dom_update split: prod.splits)
  then show ?thesis by (simp add: assign_def)
qed

lemma distinct_assign:
  "distinct (map fst target) \<Longrightarrow> distinct (map fst (assign target source))"
proof -
  have "distinct (map fst target) \<Longrightarrow>
          distinct (map fst (fold (\<lambda>(k, v) obj. AList.update k v obj) src target))" for src target
    by (induction src arbitrary: target) (auto simp: distinct_update split: prod.splits)
  then show "distinct (map fst target) \<Longrightarrow> distinct (map fst (assign target source))"
    by (cases source) (simp_all add: assign_def)
qed

lemma distinct_expected_attributes: "distinct (map fst (expected_attributes requested))"
  unfolding expected_attributes_def by (intro distinct_assign) simp

lemma shallowEqual_keys:
  assumes "shallowEqual (Some obj) b" and "distinct (map fst obj)" and "distinct (map fst b)"
  shows "fst ` set obj = fst ` set b"
proof -
  from assms(1) have len: "length obj = length b"
    and all: "\<forall>(k, v)\<in>set obj. map_of b k = Some v"
    by (auto simp: shallowEqual_def list_all_iff)
  have sub: "fst ` set obj \<subseteq> fst ` set b"
  proof
    fix k assume "k \<in> fst ` set obj"
    then obtain v where "(k, v) \<in> set obj" by auto
    with all have "map_of b k = Some v" by auto
    then show "k \<in> fst ` set b" by (auto dest: map_of_SomeD intro: rev_image_eqI)
  qed
  from assms(2) have "card (fst ` set obj) = length obj"
    using distinct_card [of "map fst obj"] by simp
  moreover from assms(3) have "card (fst ` set b) = length b"
    using distinct_card [of "map fst b"] by simp
  ultimately have "card (fst ` set obj) = card (fst ` set b)" using len by simp
  with sub show ?thesis by (simp add: card_subset_eq)
qed

text \<open>
  A requested attribute outside the names that \<open>upsertQueue\<close> asks for can never compare
  equal: the service reports the names asked for only.
\<close>

lemma unrecognized_attribute_differs:
  assumes "(k, v) \<in> set requested" and "k \<notin> set recognized_names"
    and "distinct (map fst obj)" and "fst ` set obj \<subseteq> set recognized_names"
  shows "\<not> shallowEqual (Some obj) (expected_attributes (Some requested))"
proof
  assume "shallowEqual (Some obj) (expected_attributes (Some requested))"
  from shallowEqual_keys [OF this assms(3) distinct_expected_attributes]
  have "fst ` set obj = fst ` set (expected_attributes (Some requested))" .
  moreover from assms(1) have "k \<in> fst ` set (expected_attributes (Some requested))"
    by (auto simp: expected_attributes_def keys_assign intro: rev_image_eqI)
  ultimately show False using assms(2,4) by auto
qed

lemma upsertQueue_unrecognized_attribute:
  assumes "svc ep (GetQueueUrlCommand name) None (env w) = (Inr r1, s1)"
    and "svc ep (GetQueueAttributesCommand recognized_names (QueueUrl_of r1)) None s1
           = (Inr (GetQueueAttributesResult (Some obj)), s2)"
    and "distinct (map fst obj)" and "fst ` set obj \<subseteq> set recognized_names"
    and "(k, v) \<in> set requested" and "k \<notin> set recognized_names"
  shows "fst (upsertQueue svc name (Some requested) ep False w) = Inl QueueNameExists"
  using assms(1,2) unrecognized_attribute_differs [OF assms(5,6,3,4)]
  by (simp add: upsertQueue_def upsert_try_def getQueueUrl_def send_def)

text \<open>With a requested attribute inside the six names, the second call is a no-op.\<close>

lemma upsertQueue_twice_recognized:
  "fst (upsertQueue memory_sqs ''q'' (Some [(''DelaySeconds'', ''1'')]) ''ep'' False
          empty_world) = Inr (Some ''queue/q'') \<and>
   fst (upsertQueue memory_sqs ''q'' (Some [(''DelaySeconds'', ''1'')]) ''ep'' False
          (snd (upsertQueue memory_sqs ''q'' (Some [(''DelaySeconds'', ''1'')]) ''ep''
                  False empty_world))) = Inr (Some ''queue/q'')"
  by (simp add: upsertQueue_def upsert_try_def getQueueUrl_def create_and_resolve_def assign_def
      shallowEqual_def expected_attributes_def recognized_names_def eval_defs)

text \<open>
  C4. The code does not do what the claim says. \<open>upsertQueue\<close> asks the service for the
  six recognized attribute names only, but compares the answer with the defaults overlaid
  with all requested attributes. On the in-memory service, a first call with the attribute
  \<open>SqsManagedSseEnabled\<close> creates the queue and returns its URL; a second call with the
  same command, on the world the first one left, throws \<open>QueueNameExists\<close>.
\<close>

theorem upsertQueue_twice_unrecognized_attribute:
  "fst (upsertQueue memory_sqs ''q'' (Some [(''SqsManagedSseEnabled'', ''true'')]) ''ep'' False
          empty_world) = Inr (Some ''queue/q'') \<and>
   fst (upsertQueue memory_sqs ''q'' (Some [(''SqsManagedSseEnabled'', ''true'')]) ''ep'' False
          (snd (upsertQueue memory_sqs ''q'' (Some [(''SqsManagedSseEnabled'', ''true'')]) ''ep''
                  False empty_world))) = Inl QueueNameExists"
  by (simp add: upsertQueue_def upsert_try_def getQueueUrl_def create_and_resolve_def assign_def
      shallowEqual_def expected_attributes_def recognized_names_def eval_defs)

section \<open>Properties of the poll orchestrator\<close>

lemmas loop_defs = keeps_polling_def call_logger_def report_def NoLogger_def
  aborting_logger_def throwing_logger_def failing_handler_def abort_error_def

text \<open>
  C7. In an iteration of the poll loop in which \<open>getMessages\<close> throws, the loop ends: by
  returning normally when the error is an \<open>Error\<close> named \<open>AbortError\<close> (a cancelled
  request), and by throwing that same error out of \<open>runSqsLambda\<close> in every other case.
\<close>

theorem poll_loop_receive_failure:
  assumes "keeps_polling sig w"
    and "call_logger logger LInfo ''Polling for SQS messages...'' NoPayload w = (None, w1)"
    and "getMessages k svc sig (Some b) ep False url w1 = (Raised e, w2)"
  shows "poll_loop (Suc n) k svc sig b ep handler logger region url w =
           (if isAbortError e then (Returned (), w2) else (Raised e, w2)) \<and>
         (\<forall>u. url = Some u \<longrightarrow>
            runSqsLambda (Suc n) k svc sig b ep handler (Some logger) (QueueUrl u) region w =
              (if isAbortError e then (Returned (), w2) else (Raised e, w2)))"
proof -
  from assms have loop: "poll_loop (Suc n) k svc sig b ep handler logger region url w =
      (if isAbortError e then (Returned (), w2) else (Raised e, w2))"
    by simp
  then have "runSqsLambda (Suc n) k svc sig b ep handler (Some logger) (QueueUrl u) region w =
      (if isAbortError e then (Returned (), w2) else (Raised e, w2))" if "url = Some u" for u
    using that by (simp add: runSqsLambda_def del: poll_loop.simps)
  with loop show ?thesis by blast
qed

theorem poll_loop_receive_failure_witness:
  "poll_loop (Suc 0) 1 memory_sqs (Some abortedFlag) 1 ''ep'' failing_handler aborting_logger None
       (Some ''queue/q'') demo_world
     = (Returned (),
        \<lparr>env = (env demo_world)\<lparr>abortedFlag := True\<rparr>,
         sent = [(''ep'', ReceiveMessageCommand 1 (Some ''queue/q'') (Some 0) 20)]\<rparr>) \<and>
   fst (poll_loop (Suc 0) 1 memory_sqs None 1 ''ep'' failing_handler NoLogger None
       (Some ''queue/none'') demo_world)
     = Raised QueueDoesNotExist"
proof -
  let ?w1 = "\<lparr>env = (env demo_world)\<lparr>abortedFlag := True\<rparr>, sent = []\<rparr>"
  let ?w2 = "\<lparr>env = (env demo_world)\<lparr>abortedFlag := True\<rparr>,
         sent = [(''ep'', ReceiveMessageCommand 1 (Some ''queue/q'') (Some 0) 20)]\<rparr>"
  have a1: "keeps_polling (Some abortedFlag) demo_world"
    by (simp add: loop_defs demo_world_def)
  have a2: "call_logger aborting_logger LInfo ''Polling for SQS messages...'' NoPayload demo_world
      = (None, ?w1)"
    by (simp add: loop_defs demo_world_def)
  have a3: "getMessages 1 memory_sqs (Some abortedFlag) (Some 1) ''ep'' False (Some ''queue/q'') ?w1
      = (Raised abort_error, ?w2)"
    by (simp add: eval_defs)
  let ?w3 = "\<lparr>env = env demo_world,
         sent = [(''ep'', ReceiveMessageCommand 1 (Some ''queue/none'') (Some 0) 20)]\<rparr>"
  have b1: "keeps_polling None demo_world" by (simp add: loop_defs)
  have b2: "call_logger NoLogger LInfo ''Polling for SQS messages...'' NoPayload demo_world
      = (None, demo_world)"
    by (simp add: loop_defs)
  have b3: "getMessages 1 memory_sqs None (Some 1) ''ep'' False (Some ''queue/none'') demo_world
      = (Raised QueueDoesNotExist, ?w3)"
    by (simp add: eval_defs)
  from poll_loop_receive_failure [where handler = failing_handler and n = 0 and region = None, OF a1 a2 a3]
    poll_loop_receive_failure [where handler = failing_handler and n = 0 and region = None, OF b1 b2 b3]
  show ?thesis by (simp add: abort_error_def)
qed

lemma report_NoLogger: "report NoLogger out w = (None, w)"
  by (cases out) (simp_all add: report_def call_logger_def NoLogger_def)

lemma demo_invoke:
  "invokeLambda \<lparr>sync_calls = [], finish = Throws (JObj 0), before_timer = [], after_timer = []\<rparr>
     = Some (Failure (JObj 0) False)"
  by (simp add: invokeLambda_def run_engine_def run_sync_def initial_engine_def setTimer_def
      timer_fires_def reject_def clearTimer_def innerReject_def output_of_def timeout_sentinel_def
      Let_def)

text \<open>
  C8, as stated, fails: the calls of the logger are not guarded. With a logger whose
  \<open>error\<close> method throws and a handler that fails, \<open>runSqsLambda\<close> rejects with the
  logger's error in the first iteration.
\<close>

theorem runSqsLambda_logger_throws_counterexample:
  "fst (runSqsLambda 1 1 memory_sqs None 1 ''ep'' failing_handler (Some throwing_logger)
          (QueueUrl ''queue/q'') None demo_world)
     = Raised (ErrorObj ''Error'' ''logger failure'')"
  by (simp add: runSqsLambda_def demo_getMessages1 demo_invoke loop_defs)

text \<open>
  C8, amended. In an iteration that reaches the report of the invocation outcome, a
  report that returns normally is followed by the next iteration of the loop, and the
  default logger \<open>NoLogger\<close> always returns normally; a report in which the logger throws
  ends the loop with that error.
\<close>

theorem poll_loop_report:
  assumes "keeps_polling sig w"
    and "call_logger logger LInfo ''Polling for SQS messages...'' NoPayload w = (None, w1)"
    and "getMessages k svc sig (Some b) ep False url w1 = (Returned messages, w2)"
    and "call_logger logger LInfo
           (''Invoking lambda handler with '' @ string_of_nat (length messages) @ '' messages.'')
           NoPayload w2 = (None, w3)"
    and "handler (toSqsEvent region None messages None None) (env w3) = (h, s4)"
    and "invokeLambda h = Some out"
    and "report logger out (w3\<lparr>env := s4\<rparr>) = (r, w5)"
  shows "poll_loop (Suc n) k svc sig b ep handler logger region url w =
           (case r of
              None \<Rightarrow> poll_loop n k svc sig b ep handler logger region url w5
            | Some e \<Rightarrow> (Raised e, w5)) \<and>
         report NoLogger out w' = (None, w')"
  using assms by (simp add: report_NoLogger)

theorem poll_loop_report_witness:
  "fst (poll_loop (Suc 0) 1 memory_sqs None 1 ''ep'' failing_handler NoLogger None
          (Some ''queue/q'') demo_world) = Running () \<and>
   sent (snd (poll_loop (Suc 0) 1 memory_sqs None 1 ''ep'' failing_handler NoLogger None
          (Some ''queue/q'') demo_world))
     = [(''ep'', ReceiveMessageCommand 1 (Some ''queue/q'') (Some 0) 20),
        (''ep'', DeleteMessageBatchCommand (Some ''queue/q'') [(Some ''0'', Some ''rh0'')])]"
proof -
  let ?w2 = "\<lparr>env = \<lparr>queues = [(''q'', DEFAULT_ATTRIBUTES, [msg ''1'' ''not json'', msg ''2'' ''{}''])],
              abortedFlag = False\<rparr>,
       sent = [(''ep'', ReceiveMessageCommand 1 (Some ''queue/q'') (Some 0) 20),
               (''ep'', DeleteMessageBatchCommand (Some ''queue/q'') [(Some ''0'', Some ''rh0'')])]\<rparr>"
  let ?h = "\<lparr>sync_calls = [], finish = Throws (JObj 0), before_timer = [], after_timer = []\<rparr>"
  have a1: "keeps_polling None demo_world" by (simp add: loop_defs)
  have a2: "call_logger NoLogger LInfo ''Polling for SQS messages...'' NoPayload demo_world
      = (None, demo_world)"
    by (simp add: loop_defs)
  have a4: "call_logger NoLogger LInfo
           (''Invoking lambda handler with '' @ string_of_nat (length [msg ''0'' ''{}'']) @ '' messages.'')
           NoPayload ?w2 = (None, ?w2)"
    by (simp add: loop_defs)
  have a5: "failing_handler (toSqsEvent None None [msg ''0'' ''{}''] None None) (env ?w2) = (?h, env ?w2)"
    by (simp add: loop_defs)
  have a7: "report NoLogger (Failure (JObj 0) False) (?w2\<lparr>env := env ?w2\<rparr>) = (None, ?w2)"
    by (simp add: loop_defs)
  from poll_loop_report [where n = 0 and handler = failing_handler and logger = NoLogger
      and svc = memory_sqs and k = "Suc 0" and region = None and r = None
      and w' = demo_world,
      OF a1 a2 demo_getMessages1 a4 a5 demo_invoke a7]
  show ?thesis by (simp del: poll_loop.simps add: poll_loop.simps(1))
qed

end
